theory Spec2Isabelle
  imports Main "HOL-Library.Word" "HOL-Library.Sublist"
begin

unbundle bit_operations_syntax

section \<open>JavaScript values shared by all components\<close>

text \<open>
  A JavaScript string is a sequence of UTF-16 code units. String literals of the source
  are written with \<open>js\<close> where they are ASCII and as numeric code units elsewhere
  (the messages and prompts of the application are Polish).
\<close>

type_synonym jschar = "16 word"
type_synonym jsstring = "jschar list"

definition js :: "string \<Rightarrow> jsstring" where
  "js s = map of_char s"

text \<open>\<open>String.prototype.slice(start)\<close>: a negative start counts from the end.\<close>

definition String_slice :: "int \<Rightarrow> jsstring \<Rightarrow> jsstring" where
  "String_slice start s =
     (let len = int (length s);
          from = (if start < 0 then max (len + start) 0 else min start len)
      in drop (nat from) s)"

text \<open>Thrown values. \<open>Error m\<close> is \<open>new Error(m)\<close>; the others are the built-in
  exceptions of the platform functions used by the share link codec.\<close>

datatype js_error =
    Error jsstring
  | SyntaxError
  | URIError
  | InvalidCharacterError

section \<open>Data model (\<open>types.ts\<close>)\<close>

text \<open>A JavaScript number is held as the decimal literal that denotes it; the binary
  floating-point value behind it is not modelled.\<close>

type_synonym jsnumber = jsstring

record ChartDataPoint =
  name :: jsstring
  value' :: jsnumber

datatype ChartType = bar | pie | line

record BlogChart =
  title :: jsstring
  type' :: ChartType
  data :: "ChartDataPoint list"

record SponsoredLink =
  anchor :: jsstring
  url :: jsstring
  description :: jsstring

record BlogPostData =
  title :: jsstring
  introduction :: jsstring
  body :: jsstring
  conclusion :: jsstring
  chart :: "BlogChart option"
  imagePrompt :: jsstring
  sponsoredLink :: "SponsoredLink option"

record StoredArticle =
  id :: jsstring
  title :: jsstring
  category :: jsstring
  date :: jsstring
  thumbnail :: "jsstring option"

section \<open>Generation client (\<open>services/geminiService.ts\<close>)\<close>

text \<open>
  The external service is a black box: each operation is split into the request it
  sends and the function it applies to the reply. A reply is either a thrown value
  (\<open>Inl\<close>) or a response.
\<close>

record GenerateContentParameters =
  model :: jsstring
  contents :: jsstring

text \<open>The part of the service's response type that the operations read. \<open>response.text\<close>
  is computed by the service's library; it is taken as given.\<close>

record InlineData =
  mimeType :: jsstring
  data :: jsstring

record Part =
  text' :: "jsstring option"
  inlineData :: "InlineData option"

record Content =
  parts :: "Part list option"

record GroundingChunkWeb =
  uri :: "jsstring option"
  title :: "jsstring option"

record GroundingChunk =
  web :: "GroundingChunkWeb option"

record GroundingMetadata =
  groundingChunks :: "GroundingChunk list option"

record Candidate =
  content :: "Content option"
  groundingMetadata :: "GroundingMetadata option"

record GenerateContentResponse =
  text' :: "jsstring option"
  candidates :: "Candidate list option"

subsection \<open>\<open>generateMoreContent\<close>\<close>

definition generateMoreContent_prompt :: "jsstring \<Rightarrow> jsstring \<Rightarrow> jsstring" where
  "generateMoreContent_prompt currentTitle currentBodyContext =
     [0xA] @ js ''    Jeste'' @ [0x15B] @ js '' tym samym nagradzanym blogerem.'' @
     [0xA] @ js ''    '' @
     [0xA] @ js ''    Kontekst: Piszesz artyku'' @ [0x142] @ js '' pt. '' @ [0x22] @
     currentTitle @
     [0x22] @ js ''.'' @
     [0xA] @ js ''    Ostatnia cz'' @ [0x119, 0x15B, 0x107] @ js '' tre'' @ [0x15B] @
     js ''ci (kontekst): '' @ [0x22] @
     String_slice (- 500) currentBodyContext @
     [0x22, 0xA] @ js ''    '' @
     [0xA] @ js ''    Zadanie: Napisz kolejn'' @ [0x105] @ js '', logiczn'' @ [0x105] @
     js '' sekcj'' @ [0x119] @ js '' tego artyku'' @ [0x142] @ js ''u (kontynuacj'' @
     [0x119] @ js '').'' @
     [0xA] @ js ''    Format: Markdown. Rozpocznij od nag'' @ [0x142, 0xF3] @ js ''wka H2.'' @
     [0xA] @ js ''    Styl: Ten sam co wcze'' @ [0x15B] @ js ''niej - emocjonalny, du'' @
     [0x17C] @ js ''o emoji, merytoryczny.'' @
     [0xA] @ js ''    D'' @ [0x142] @ js ''ugo'' @ [0x15B, 0x107] @ js '': Oko'' @ [0x142] @
     js ''o 200-300 s'' @ [0x142, 0xF3] @ js ''w.'' @
     [0xA] @ js ''    Nie pisz podsumowania ani zako'' @ [0x144] @ js ''czenia (to ju'' @
     [0x17C] @ js '' mamy). Po prostu rozwi'' @ [0x144] @ js '' temat o kolejny w'' @
     [0x105] @ js ''tek.'' @
     [0xA] @ js ''  ''"

definition generateMoreContent_request :: "jsstring \<Rightarrow> jsstring \<Rightarrow> GenerateContentParameters" where
  "generateMoreContent_request currentTitle currentBodyContext =
     \<lparr>model = js ''gemini-3-pro-preview'',
      contents = generateMoreContent_prompt currentTitle currentBodyContext\<rparr>"

text \<open>The function returns \<open>response.text || ""\<close> and rethrows whatever the call
  threw.\<close>

definition generateMoreContent_result ::
  "js_error + GenerateContentResponse \<Rightarrow> js_error + jsstring" where
  "generateMoreContent_result reply =
     (case reply of
        Inl e \<Rightarrow> Inl e
      | Inr response \<Rightarrow>
          Inr (case GenerateContentResponse.text' response of None \<Rightarrow> [] | Some t \<Rightarrow> t))"

subsection \<open>\<open>generateBlogImage\<close>\<close>

text \<open>\<open>response.candidates?.[0]?.content?.parts || []\<close>\<close>

definition response_parts :: "GenerateContentResponse \<Rightarrow> Part list" where
  "response_parts response =
     (case candidates response of
        None \<Rightarrow> []
      | Some [] \<Rightarrow> []
      | Some (c # _) \<Rightarrow>
          (case content c of
             None \<Rightarrow> []
           | Some ct \<Rightarrow> (case parts ct of None \<Rightarrow> [] | Some ps \<Rightarrow> ps)))"

text \<open>The loop over the parts, with the \<open>throw\<close> that follows it.\<close>

fun first_inline_image :: "Part list \<Rightarrow> js_error + jsstring" where
  "first_inline_image [] =
     Inl (Error (js ''Nie uda'' @ [0x142] @ js ''o si'' @ [0x119] @ js '' wygenerowa'' @
                 [0x107] @ js '' obrazu.''))"
| "first_inline_image (part # rest) =
     (case inlineData part of
        Some d \<Rightarrow> Inr (js ''data:image/png;base64,'' @ InlineData.data d)
      | None \<Rightarrow> first_inline_image rest)"

definition generateBlogImage :: "js_error + GenerateContentResponse \<Rightarrow> js_error + jsstring" where
  "generateBlogImage reply =
     (case reply of
        Inl e \<Rightarrow> Inl e
      | Inr response \<Rightarrow> first_inline_image (response_parts response))"

section \<open>Article session (\<open>App.tsx\<close>)\<close>

record AppState =
  blogData :: "BlogPostData option"
  isLoading :: bool
  isGeneratingMore :: bool
  error :: "jsstring option"
  logo :: "jsstring option"
  currentCategory :: jsstring

definition initialState :: AppState where
  "initialState =
     \<lparr>blogData = None, isLoading = False, isGeneratingMore = False, error = None,
      logo = None, currentCategory = []\<rparr>"

subsection \<open>\<open>handleGenerate\<close>\<close>

text \<open>
  An asynchronous handler runs up to its \<open>await\<close> when it is called and resumes when
  the awaited promise settles. \<open>handleGenerate_call\<close> is the first half,
  \<open>handleGenerate_settled\<close> the second; the reply of \<open>generateBlogPost\<close> is the parsed
  article or the value it threw. The handler keeps nothing that identifies the call a
  reply belongs to.
\<close>

definition handleGenerate_call :: "jsstring \<Rightarrow> jsstring \<Rightarrow> jsstring \<Rightarrow> AppState \<Rightarrow> AppState" where
  "handleGenerate_call topic category' length' s =
     s\<lparr>isLoading := True, error := None, blogData := None, currentCategory := category'\<rparr>"

definition handleGenerate_settled :: "js_error + BlogPostData \<Rightarrow> AppState \<Rightarrow> AppState" where
  "handleGenerate_settled reply s =
     (case reply of
        Inr d \<Rightarrow> s\<lparr>blogData := Some d, isLoading := False\<rparr>
      | Inl e \<Rightarrow>
          s\<lparr>error := Some (js ''Ups! Wena tw'' @ [0xF3] @ js ''rcza chwilowo znikn'' @
                         [0x119, 0x142] @ js ''a (b'' @ [0x142, 0x105] @ js ''d API). Spr'' @
                         [0xF3] @ js ''buj ponownie za chwil'' @ [0x119] @ js ''.''),
            isLoading := False\<rparr>)"

subsection \<open>\<open>handleGenerateMore\<close>\<close>

text \<open>The call returns at once when there is no article; otherwise it sends the
  continuation request built from the article it sees.\<close>

definition handleGenerateMore_call :: "AppState \<Rightarrow> AppState \<times> GenerateContentParameters option" where
  "handleGenerateMore_call s =
     (case blogData s of
        None \<Rightarrow> (s, None)
      | Some d \<Rightarrow>
          (s\<lparr>isGeneratingMore := True\<rparr>,
           Some (generateMoreContent_request (BlogPostData.title d) (body d))))"

text \<open>\<open>setBlogData(prev => ...)\<close> updates the article the session holds when the reply
  arrives.\<close>

definition handleGenerateMore_settled ::
  "js_error + GenerateContentResponse \<Rightarrow> AppState \<Rightarrow> AppState" where
  "handleGenerateMore_settled reply s =
     (case generateMoreContent_result reply of
        Inr newContent \<Rightarrow>
          s\<lparr>blogData :=
              (case blogData s of
                 None \<Rightarrow> None
               | Some prev \<Rightarrow> Some (prev\<lparr>body := body prev @ [0xA, 0xA] @ newContent\<rparr>)),
            isGeneratingMore := False\<rparr>
      | Inl e \<Rightarrow> s\<lparr>isGeneratingMore := False\<rparr>)"

subsection \<open>Runs of the session\<close>

text \<open>
  \<open>handleGenerate\<close> has one caller: the submit button of the editor
  (\<open>components/Editor.tsx\<close>), rendered with \<open>disabled={isLoading || !topic}\<close>. A click
  on the disabled button calls nothing.
\<close>

definition submit_disabled :: "AppState \<Rightarrow> jsstring \<Rightarrow> bool" where
  "submit_disabled s topic = (isLoading s \<or> topic = [])"

text \<open>
  Every call of \<open>handleGenerate\<close> awaits a promise of its own, and the reply to a call
  resumes that call once. A session is the state of the application together with the
  calls whose reply is outstanding. A call is named by a number, so that a reply can say
  which call it answers; the handler never sees that number. A reply that names a call
  with no outstanding promise resumes nothing.
\<close>

datatype event =
    Submit nat jsstring jsstring jsstring
  | Reply nat "js_error + BlogPostData"

record Session =
  app :: AppState
  awaiting :: "nat list"

fun step :: "Session \<Rightarrow> event \<Rightarrow> Session" where
  "step s (Submit call topic category' length') =
     (if submit_disabled (app s) topic then s
      else \<lparr>app = handleGenerate_call topic category' length' (app s),
            awaiting = call # awaiting s\<rparr>)"
| "step s (Reply call reply) =
     (if call \<in> set (awaiting s)
      then \<lparr>app = handleGenerate_settled reply (app s), awaiting = remove1 call (awaiting s)\<rparr>
      else s)"

definition run :: "Session \<Rightarrow> event list \<Rightarrow> Session" where
  "run s evs = foldl step s evs"




section \<open>History cache (\<open>saveArticle\<close> in \<open>components/ArticleView.tsx\<close>)\<close>

text \<open>
  The slot \<open>bloger_history\<close> of the local storage holds the serialized list of entries;
  it is modelled by the list it denotes, \<open>None\<close> while the slot is absent. Whether a
  \<open>setItem\<close> fits the quota is decided by the browser: \<open>accepts\<close> says which lists can
  be written. \<open>now\<close> and \<open>today\<close> stand for \<open>Date.now().toString()\<close> and
  \<open>new Date().toLocaleDateString()\<close>.
\<close>

record HistoryState =
  stored :: "StoredArticle list option"
  recentArticles :: "StoredArticle list"

definition saveArticle ::
  "(StoredArticle list \<Rightarrow> bool) \<Rightarrow> jsstring \<Rightarrow> jsstring \<Rightarrow>
   jsstring \<Rightarrow> jsstring \<Rightarrow> jsstring option \<Rightarrow> HistoryState \<Rightarrow> HistoryState" where
  "saveArticle accepts now today dataTitle category' generatedImage st =
     (let history = (case stored st of None \<Rightarrow> [] | Some h \<Rightarrow> h) in
      if \<not> list_ex (\<lambda>h. StoredArticle.title h = dataTitle) history then
        (let newEntry = \<lparr>id = now, StoredArticle.title = dataTitle, category = category', date = today,
                         thumbnail = generatedImage\<rparr>;
             history1 = newEntry # history;
             history2 = (if length history1 > 3 then butlast history1 else history1)
         in if accepts history2 then
              \<lparr>stored = Some history2,
               recentArticles = filter (\<lambda>h. StoredArticle.title h \<noteq> dataTitle) history2\<rparr>
            else
              (let history3 = history2[0 := newEntry\<lparr>thumbnail := None\<rparr>]
               in if accepts history3 then
                    \<lparr>stored = Some history3,
                     recentArticles = filter (\<lambda>h. StoredArticle.title h \<noteq> dataTitle) history3\<rparr>
                  else st))
      else
        st\<lparr>recentArticles := filter (\<lambda>h. StoredArticle.title h \<noteq> dataTitle) history\<rparr>)"

text \<open>One call of \<open>saveArticle\<close> per shown article, in sequence.\<close>

record Shown =
  shownTitle :: jsstring
  shownCategory :: jsstring
  shownImage :: "jsstring option"
  shownAt :: jsstring
  shownDate :: jsstring

definition saveShown :: "(StoredArticle list \<Rightarrow> bool) \<Rightarrow> HistoryState \<Rightarrow> Shown \<Rightarrow> HistoryState" where
  "saveShown accepts st a =
     saveArticle accepts (shownAt a) (shownDate a) (shownTitle a) (shownCategory a) (shownImage a) st"

definition emptyHistory :: HistoryState where
  "emptyHistory = \<lparr>stored = None, recentArticles = []\<rparr>"

definition storedList :: "HistoryState \<Rightarrow> StoredArticle list" where
  "storedList st = (case stored st of None \<Rightarrow> [] | Some h \<Rightarrow> h)"


section \<open>Platform functions used by the share link\<close>

text \<open>
  The share link is built from \<open>JSON.stringify\<close>, \<open>encodeURIComponent\<close>, a regular
  expression replacement and \<open>btoa\<close>, and read back with \<open>atob\<close>,
  \<open>decodeURIComponent\<close> and \<open>JSON.parse\<close>. These functions belong to the platform;
  they are modelled after the algorithms of ECMA-262 and of the WHATWG standards
  (forgiving base64). A function that throws returns \<open>None\<close>; the exception it throws
  is fixed by the function (\<open>URIError\<close>, \<open>InvalidCharacterError\<close>, \<open>SyntaxError\<close>).
\<close>

subsection \<open>UTF-16 code units, code points, UTF-8 octets\<close>

definition is_leading_surrogate :: "jschar \<Rightarrow> bool" where
  "is_leading_surrogate c = (0xD800 \<le> unat c \<and> unat c \<le> 0xDBFF)"

definition is_trailing_surrogate :: "jschar \<Rightarrow> bool" where
  "is_trailing_surrogate c = (0xDC00 \<le> unat c \<and> unat c \<le> 0xDFFF)"

definition UTF16SurrogatePairToCodePoint :: "jschar \<Rightarrow> jschar \<Rightarrow> nat" where
  "UTF16SurrogatePairToCodePoint lead trail =
     (unat lead - 0xD800) * 0x400 + (unat trail - 0xDC00) + 0x10000"

definition UTF16EncodeCodePoint :: "nat \<Rightarrow> jsstring" where
  "UTF16EncodeCodePoint cp =
     (if cp \<le> 0xFFFF then [of_nat cp]
      else [of_nat ((cp - 0x10000) div 0x400 + 0xD800),
            of_nat ((cp - 0x10000) mod 0x400 + 0xDC00)])"

text \<open>The UTF-8 transformation of a code point into one to four octets.\<close>

definition utf8_octets :: "nat \<Rightarrow> nat list" where
  "utf8_octets cp =
     (if cp < 0x80 then [cp]
      else if cp < 0x800 then [0xC0 + cp div 0x40, 0x80 + cp mod 0x40]
      else if cp < 0x10000 then
        [0xE0 + cp div 0x1000, 0x80 + cp div 0x40 mod 0x40, 0x80 + cp mod 0x40]
      else
        [0xF0 + cp div 0x40000, 0x80 + cp div 0x1000 mod 0x40,
         0x80 + cp div 0x40 mod 0x40, 0x80 + cp mod 0x40])"

text \<open>The code point of a well-formed UTF-8 sequence of two to four octets: the
  continuation octets have the form \<open>10xxxxxx\<close>, the encoding is the shortest one, and
  the code point is neither a surrogate nor above \<open>0x10FFFF\<close>.\<close>

definition is_continuation :: "nat \<Rightarrow> bool" where
  "is_continuation b = (0x80 \<le> b \<and> b < 0xC0)"

fun utf8_code_point :: "nat list \<Rightarrow> nat option" where
  "utf8_code_point [b0, b1] =
     (let cp = (b0 - 0xC0) * 0x40 + (b1 - 0x80)
      in if is_continuation b1 \<and> 0x80 \<le> cp then Some cp else None)"
| "utf8_code_point [b0, b1, b2] =
     (let cp = (b0 - 0xE0) * 0x1000 + (b1 - 0x80) * 0x40 + (b2 - 0x80)
      in if is_continuation b1 \<and> is_continuation b2 \<and> 0x800 \<le> cp \<and>
            \<not> (0xD800 \<le> cp \<and> cp \<le> 0xDFFF)
         then Some cp else None)"
| "utf8_code_point [b0, b1, b2, b3] =
     (let cp = (b0 - 0xF0) * 0x40000 + (b1 - 0x80) * 0x1000 + (b2 - 0x80) * 0x40 + (b3 - 0x80)
      in if is_continuation b1 \<and> is_continuation b2 \<and> is_continuation b3 \<and>
            0x10000 \<le> cp \<and> cp \<le> 0x10FFFF
         then Some cp else None)"
| "utf8_code_point _ = None"

subsection \<open>\<open>encodeURIComponent\<close> and the replacement of its escapes\<close>

definition hexDigitUpper :: "nat \<Rightarrow> jschar" where
  "hexDigitUpper n = (if n < 10 then of_nat (0x30 + n) else of_nat (0x41 + (n - 10)))"

definition hexDigitLower :: "nat \<Rightarrow> jschar" where
  "hexDigitLower n = (if n < 10 then of_nat (0x30 + n) else of_nat (0x61 + (n - 10)))"

text \<open>Letters, digits and the marks \<open>- _ . ! ~ * ' ( )\<close> are left as they are.\<close>

definition uriUnreserved :: "jschar \<Rightarrow> bool" where
  "uriUnreserved c =
     (let n = unat c
      in (0x41 \<le> n \<and> n \<le> 0x5A) \<or> (0x61 \<le> n \<and> n \<le> 0x7A) \<or> (0x30 \<le> n \<and> n \<le> 0x39) \<or>
         n = 0x2D \<or> n = 0x5F \<or> n = 0x2E \<or> n = 0x21 \<or> n = 0x7E \<or> n = 0x2A \<or>
         n = 0x27 \<or> n = 0x28 \<or> n = 0x29)"

definition percentEncodeOctet :: "nat \<Rightarrow> jsstring" where
  "percentEncodeOctet b = [0x25, hexDigitUpper (b div 16), hexDigitUpper (b mod 16)]"

definition percentEncode :: "nat \<Rightarrow> jsstring" where
  "percentEncode cp = concat (map percentEncodeOctet (utf8_octets cp))"

text \<open>\<open>Encode\<close> of ECMA-262 with the unreserved set of \<open>encodeURIComponent\<close>; an
  unpaired surrogate throws \<open>URIError\<close>.\<close>

fun encodeURIComponent :: "jsstring \<Rightarrow> jsstring option" where
  "encodeURIComponent [] = Some []"
| "encodeURIComponent (c # rest) =
     (if uriUnreserved c then map_option ((#) c) (encodeURIComponent rest)
      else if is_trailing_surrogate c then None
      else if is_leading_surrogate c then
        (case rest of
           [] \<Rightarrow> None
         | d # rest' \<Rightarrow>
             if is_trailing_surrogate d then
               map_option ((@) (percentEncode (UTF16SurrogatePairToCodePoint c d)))
                 (encodeURIComponent rest')
             else None)
      else map_option ((@) (percentEncode (unat c))) (encodeURIComponent rest))"

text \<open>\<open>parseInt(p1, 16)\<close> on a digit of \<open>[0-9A-F]\<close>, and on any hexadecimal digit.\<close>

definition upperHexValue :: "jschar \<Rightarrow> nat option" where
  "upperHexValue c =
     (let n = unat c
      in if 0x30 \<le> n \<and> n \<le> 0x39 then Some (n - 0x30)
         else if 0x41 \<le> n \<and> n \<le> 0x46 then Some (n - 0x41 + 10)
         else None)"

definition hexValue :: "jschar \<Rightarrow> nat option" where
  "hexValue c =
     (let n = unat c
      in if 0x30 \<le> n \<and> n \<le> 0x39 then Some (n - 0x30)
         else if 0x41 \<le> n \<and> n \<le> 0x46 then Some (n - 0x41 + 10)
         else if 0x61 \<le> n \<and> n \<le> 0x66 then Some (n - 0x61 + 10)
         else None)"

text \<open>
  \<open>.replace(/%([0-9A-F]{2})/g, function toSolidBytes(match, p1) {
     return String.fromCharCode(parseInt(p1, 16)); })\<close>:
  the matches are found from left to right and do not overlap.
\<close>

fun toSolidBytes :: "jsstring \<Rightarrow> jsstring" where
  "toSolidBytes (p # h1 # h2 # rest) =
     (if p = 0x25 then
        (case (upperHexValue h1, upperHexValue h2) of
           (Some a, Some b) \<Rightarrow> of_nat (16 * a + b) # toSolidBytes rest
         | _ \<Rightarrow> p # toSolidBytes (h1 # h2 # rest))
      else p # toSolidBytes (h1 # h2 # rest))"
| "toSolidBytes (c # rest) = c # toSolidBytes rest"
| "toSolidBytes [] = []"

subsection \<open>\<open>btoa\<close> and \<open>atob\<close>\<close>

definition base64_char :: "nat \<Rightarrow> jschar" where
  "base64_char n =
     (if n < 26 then of_nat (0x41 + n)
      else if n < 52 then of_nat (0x61 + (n - 26))
      else if n < 62 then of_nat (0x30 + (n - 52))
      else if n = 62 then 0x2B
      else 0x2F)"

fun base64_encode :: "nat list \<Rightarrow> jsstring" where
  "base64_encode (a # b # c # rest) =
     base64_char (a div 4) # base64_char (a mod 4 * 16 + b div 16) #
     base64_char (b mod 16 * 4 + c div 64) # base64_char (c mod 64) # base64_encode rest"
| "base64_encode [a, b] =
     [base64_char (a div 4), base64_char (a mod 4 * 16 + b div 16),
      base64_char (b mod 16 * 4), 0x3D]"
| "base64_encode [a] = [base64_char (a div 4), base64_char (a mod 4 * 16), 0x3D, 0x3D]"
| "base64_encode [] = []"

text \<open>\<open>btoa\<close> throws \<open>InvalidCharacterError\<close> on a code unit above \<open>0xFF\<close>.\<close>

definition btoa :: "jsstring \<Rightarrow> jsstring option" where
  "btoa s =
     (if list_all (\<lambda>c. unat c \<le> 0xFF) s then Some (base64_encode (map unat s)) else None)"

definition base64_value :: "jschar \<Rightarrow> nat option" where
  "base64_value c =
     (let n = unat c
      in if 0x41 \<le> n \<and> n \<le> 0x5A then Some (n - 0x41)
         else if 0x61 \<le> n \<and> n \<le> 0x7A then Some (n - 0x61 + 26)
         else if 0x30 \<le> n \<and> n \<le> 0x39 then Some (n - 0x30 + 52)
         else if n = 0x2B then Some 62
         else if n = 0x2F then Some 63
         else None)"

definition is_ascii_whitespace :: "jschar \<Rightarrow> bool" where
  "is_ascii_whitespace c = (c = 0x09 \<or> c = 0x0A \<or> c = 0x0C \<or> c = 0x0D \<or> c = 0x20)"

text \<open>When the length is a multiple of four, one or two \<open>=\<close> at the end are removed.\<close>

definition strip_padding :: "jsstring \<Rightarrow> jsstring" where
  "strip_padding d =
     (if length d mod 4 = 0 \<and> d \<noteq> [] \<and> last d = 0x3D then
        (let d1 = butlast d
         in if d1 \<noteq> [] \<and> last d1 = 0x3D then butlast d1 else d1)
      else d)"

fun base64_decode :: "nat list \<Rightarrow> nat list" where
  "base64_decode (a # b # c # d # rest) =
     (a * 4 + b div 16) # (b mod 16 * 16 + c div 4) # (c mod 4 * 64 + d) # base64_decode rest"
| "base64_decode [a, b, c] = [a * 4 + b div 16, b mod 16 * 16 + c div 4]"
| "base64_decode [a, b] = [a * 4 + b div 16]"
| "base64_decode _ = []"

text \<open>\<open>atob\<close> is the forgiving base64 decoder: it throws \<open>InvalidCharacterError\<close> when,
  after whitespace and padding are removed, the length is 1 modulo 4 or a character is
  outside the base64 alphabet.\<close>

definition atob :: "jsstring \<Rightarrow> jsstring option" where
  "atob s =
     (let d = strip_padding (filter (\<lambda>c. \<not> is_ascii_whitespace c) s)
      in if length d mod 4 = 1 then None
         else (case those (map base64_value d) of
                 None \<Rightarrow> None
               | Some sextets \<Rightarrow> Some (map of_nat (base64_decode sextets))))"

subsection \<open>\<open>decodeURIComponent\<close> and the escaping of every code unit\<close>

text \<open>\<open>Number.prototype.toString(16)\<close> on a non-negative integer.\<close>

fun toString16 :: "nat \<Rightarrow> jsstring" where
  "toString16 n =
     (if n < 16 then [hexDigitLower n] else toString16 (n div 16) @ [hexDigitLower (n mod 16)])"

text \<open>\<open>'%' + ('00' + c.charCodeAt(0).toString(16)).slice(-2)\<close>, and the
  \<open>split('').map(...).join('')\<close> around it.\<close>

definition percentEscape :: "jschar \<Rightarrow> jsstring" where
  "percentEscape c = 0x25 # String_slice (- 2) (js ''00'' @ toString16 (unat c))"

definition percentEscapeAll :: "jsstring \<Rightarrow> jsstring" where
  "percentEscapeAll s = concat (map percentEscape s)"

definition ParseHexOctet :: "jschar \<Rightarrow> jschar \<Rightarrow> nat option" where
  "ParseHexOctet h1 h2 =
     (case (hexValue h1, hexValue h2) of
        (Some a, Some b) \<Rightarrow> Some (16 * a + b)
      | _ \<Rightarrow> None)"

text \<open>The number of leading 1 bits of an octet (5 stands for five or more).\<close>

definition leading_ones :: "nat \<Rightarrow> nat" where
  "leading_ones b =
     (if b < 0x80 then 0 else if b < 0xC0 then 1 else if b < 0xE0 then 2
      else if b < 0xF0 then 3 else if b < 0xF8 then 4 else 5)"

text \<open>The next \<open>n\<close> escapes \<open>%XX\<close> of the string, as octets, and what follows them.\<close>

fun continuation_octets :: "nat \<Rightarrow> jsstring \<Rightarrow> (nat list \<times> jsstring) option" where
  "continuation_octets 0 s = Some ([], s)"
| "continuation_octets (Suc n) (p # h1 # h2 # rest) =
     (if p = 0x25 then
        (case ParseHexOctet h1 h2 of
           None \<Rightarrow> None
         | Some b \<Rightarrow>
             (case continuation_octets n rest of
                None \<Rightarrow> None
              | Some (bs, rest') \<Rightarrow> Some (b # bs, rest')))
      else None)"
| "continuation_octets (Suc n) _ = None"

lemma continuation_octets_length:
  "continuation_octets n s = Some (bs, r) \<Longrightarrow> length r \<le> length s"
proof (induction n s arbitrary: bs r rule: continuation_octets.induct)
  case (1 s)
  then show ?case by simp
next
  case (2 n p h1 h2 rest)
  then show ?case
    by (fastforce split: if_splits option.splits)
qed simp_all

text \<open>\<open>Decode\<close> of ECMA-262 with an empty set of preserved escapes; a malformed escape
  or an escape sequence that is not well-formed UTF-8 throws \<open>URIError\<close>.\<close>

function decodeURIComponent :: "jsstring \<Rightarrow> jsstring option" where
  "decodeURIComponent [] = Some []"
| "decodeURIComponent (c # rest) =
     (if c \<noteq> 0x25 then map_option ((#) c) (decodeURIComponent rest)
      else
        (case rest of
           h1 # h2 # rest1 \<Rightarrow>
             (case ParseHexOctet h1 h2 of
                None \<Rightarrow> None
              | Some b \<Rightarrow>
                  if leading_ones b = 0 then
                    map_option ((#) (of_nat b)) (decodeURIComponent rest1)
                  else if leading_ones b = 1 \<or> leading_ones b > 4 then None
                  else
                    (case continuation_octets (leading_ones b - 1) rest1 of
                       None \<Rightarrow> None
                     | Some (bs, rest2) \<Rightarrow>
                         (case utf8_code_point (b # bs) of
                            None \<Rightarrow> None
                          | Some cp \<Rightarrow>
                              map_option ((@) (UTF16EncodeCodePoint cp))
                                (decodeURIComponent rest2))))
         | _ \<Rightarrow> None))"
  by pat_completeness auto
termination
  by (relation "measure length") (auto dest: continuation_octets_length)

subsection \<open>JSON values, \<open>JSON.stringify\<close> and \<open>JSON.parse\<close>\<close>

text \<open>
  A JSON value as \<open>JSON.parse\<close> builds it. An object lists its properties in the order
  of their creation. A number is held as its literal.
\<close>

datatype json =
    JNull
  | JBool bool
  | JNum jsnumber
  | JStr jsstring
  | JArr "json list"
  | JObj "(jsstring \<times> json) list"

text \<open>\<open>UnicodeEscape\<close>: \<open>\u\<close> and four lower-case hexadecimal digits.\<close>

definition UnicodeEscape :: "jschar \<Rightarrow> jsstring" where
  "UnicodeEscape c =
     [0x5C, 0x75, hexDigitLower (unat c div 0x1000), hexDigitLower (unat c div 0x100 mod 16),
      hexDigitLower (unat c div 16 mod 16), hexDigitLower (unat c mod 16)]"

text \<open>The body of \<open>QuoteJSONString\<close>: the two-character escapes, \<open>\uXXXX\<close> for the other
  control characters and for unpaired surrogates, every other code point unchanged.\<close>

fun quote_code_points :: "jsstring \<Rightarrow> jsstring" where
  "quote_code_points [] = []"
| "quote_code_points (c # rest) =
     (if c = 0x08 then [0x5C, 0x62] @ quote_code_points rest
      else if c = 0x09 then [0x5C, 0x74] @ quote_code_points rest
      else if c = 0x0A then [0x5C, 0x6E] @ quote_code_points rest
      else if c = 0x0C then [0x5C, 0x66] @ quote_code_points rest
      else if c = 0x0D then [0x5C, 0x72] @ quote_code_points rest
      else if c = 0x22 then [0x5C, 0x22] @ quote_code_points rest
      else if c = 0x5C then [0x5C, 0x5C] @ quote_code_points rest
      else if unat c < 0x20 then UnicodeEscape c @ quote_code_points rest
      else if is_trailing_surrogate c then UnicodeEscape c @ quote_code_points rest
      else if is_leading_surrogate c then
        (case rest of
           [] \<Rightarrow> UnicodeEscape c
         | d # rest' \<Rightarrow>
             if is_trailing_surrogate d then c # d # quote_code_points rest'
             else UnicodeEscape c @ quote_code_points rest)
      else c # quote_code_points rest)"

definition QuoteJSONString :: "jsstring \<Rightarrow> jsstring" where
  "QuoteJSONString s = [0x22] @ quote_code_points s @ [0x22]"

text \<open>\<open>JSON.stringify\<close> without replacer and indentation.\<close>

fun JSON_stringify :: "json \<Rightarrow> jsstring"
  and stringify_elements :: "json list \<Rightarrow> jsstring"
  and stringify_members :: "(jsstring \<times> json) list \<Rightarrow> jsstring" where
  "JSON_stringify JNull = js ''null''"
| "JSON_stringify (JBool b) = (if b then js ''true'' else js ''false'')"
| "JSON_stringify (JNum n) = n"
| "JSON_stringify (JStr s) = QuoteJSONString s"
| "JSON_stringify (JArr vs) = [0x5B] @ stringify_elements vs @ [0x5D]"
| "JSON_stringify (JObj ms) = [0x7B] @ stringify_members ms @ [0x7D]"
| "stringify_elements [] = []"
| "stringify_elements [v] = JSON_stringify v"
| "stringify_elements (v # w # vs) = JSON_stringify v @ [0x2C] @ stringify_elements (w # vs)"
| "stringify_members [] = []"
| "stringify_members [(k, v)] = QuoteJSONString k @ [0x3A] @ JSON_stringify v"
| "stringify_members ((k, v) # m # ms) =
     QuoteJSONString k @ [0x3A] @ JSON_stringify v @ [0x2C] @ stringify_members (m # ms)"

text \<open>The lexical grammar of JSON: white space, strings, numbers.\<close>

definition is_json_ws :: "jschar \<Rightarrow> bool" where
  "is_json_ws c = (c = 0x20 \<or> c = 0x09 \<or> c = 0x0A \<or> c = 0x0D)"

definition skip_ws :: "jsstring \<Rightarrow> jsstring" where
  "skip_ws s = dropWhile is_json_ws s"

definition is_digit :: "jschar \<Rightarrow> bool" where
  "is_digit c = (0x30 \<le> unat c \<and> unat c \<le> 0x39)"

text \<open>The character an escape stands for and the text after the escape, from the text
  after the backslash.\<close>

definition parse_escape :: "jsstring \<Rightarrow> (jschar \<times> jsstring) option" where
  "parse_escape s =
     (case s of
        [] \<Rightarrow> None
      | e # rest \<Rightarrow>
          if e = 0x22 \<or> e = 0x5C \<or> e = 0x2F then Some (e, rest)
          else if e = 0x62 then Some (0x08, rest)
          else if e = 0x66 then Some (0x0C, rest)
          else if e = 0x6E then Some (0x0A, rest)
          else if e = 0x72 then Some (0x0D, rest)
          else if e = 0x74 then Some (0x09, rest)
          else if e = 0x75 then
            (case rest of
               h1 # h2 # h3 # h4 # rest' \<Rightarrow>
                 (case hexValue h1 of
                    None \<Rightarrow> None
                  | Some a \<Rightarrow>
                      (case hexValue h2 of
                         None \<Rightarrow> None
                       | Some b \<Rightarrow>
                           (case hexValue h3 of
                              None \<Rightarrow> None
                            | Some c \<Rightarrow>
                                (case hexValue h4 of
                                   None \<Rightarrow> None
                                 | Some d \<Rightarrow>
                                     Some (of_nat (a * 0x1000 + b * 0x100 + c * 16 + d),
                                           rest')))))
             | _ \<Rightarrow> None)
          else None)"

lemma parse_escape_shorter:
  "parse_escape s = Some (c, r) \<Longrightarrow> length r < length s"
  by (cases s) (auto simp: parse_escape_def split: if_splits list.splits option.splits)

text \<open>The characters of a string after its opening quote, up to the closing quote.\<close>

function parse_string :: "jsstring \<Rightarrow> (jsstring \<times> jsstring) option" where
  "parse_string [] = None"
| "parse_string (c # rest) =
     (if c = 0x22 then Some ([], rest)
      else if c = 0x5C then
        (case parse_escape rest of
           None \<Rightarrow> None
         | Some (e, rest') \<Rightarrow>
             (case parse_string rest' of None \<Rightarrow> None | Some (s, r) \<Rightarrow> Some (e # s, r)))
      else if unat c < 0x20 then None
      else (case parse_string rest of None \<Rightarrow> None | Some (s, r) \<Rightarrow> Some (c # s, r)))"
  by pat_completeness auto
termination
  by (relation "measure length") (auto dest: parse_escape_shorter)

text \<open>
  A number literal: \<open>-? (0 | [1-9][0-9]*) (. [0-9]+)? ([eE] [+-]? [0-9]+)?\<close>. Each
  scanner returns the characters it read and the rest.
\<close>

definition scan_digits :: "jsstring \<Rightarrow> jsstring \<times> jsstring" where
  "scan_digits s = (takeWhile is_digit s, dropWhile is_digit s)"

definition scan_int :: "jsstring \<Rightarrow> (jsstring \<times> jsstring) option" where
  "scan_int s =
     (case s of
        [] \<Rightarrow> None
      | c # rest \<Rightarrow>
          if c = 0x30 then Some ([c], rest)
          else if is_digit c then Some (c # fst (scan_digits rest), snd (scan_digits rest))
          else None)"

definition scan_frac :: "jsstring \<Rightarrow> (jsstring \<times> jsstring) option" where
  "scan_frac s =
     (case s of
        [] \<Rightarrow> Some ([], s)
      | c # rest \<Rightarrow>
          if c = 0x2E then
            (if fst (scan_digits rest) = [] then None
             else Some (c # fst (scan_digits rest), snd (scan_digits rest)))
          else Some ([], s))"

definition scan_exp :: "jsstring \<Rightarrow> (jsstring \<times> jsstring) option" where
  "scan_exp s =
     (case s of
        [] \<Rightarrow> Some ([], s)
      | c # rest \<Rightarrow>
          if c = 0x65 \<or> c = 0x45 then
            (let (sign, rest1) =
                   (case rest of
                      [] \<Rightarrow> ([], rest)
                    | d # rest' \<Rightarrow> if d = 0x2B \<or> d = 0x2D then ([d], rest') else ([], rest))
             in if fst (scan_digits rest1) = [] then None
                else Some (c # sign @ fst (scan_digits rest1), snd (scan_digits rest1)))
          else Some ([], s))"

definition scan_number :: "jsstring \<Rightarrow> (jsstring \<times> jsstring) option" where
  "scan_number s =
     (let (sign, s1) = (case s of [] \<Rightarrow> ([], s) | c # rest \<Rightarrow> if c = 0x2D then ([c], rest) else ([], s))
      in case scan_int s1 of
           None \<Rightarrow> None
         | Some (i, s2) \<Rightarrow>
             (case scan_frac s2 of
                None \<Rightarrow> None
              | Some (f, s3) \<Rightarrow>
                  (case scan_exp s3 of
                     None \<Rightarrow> None
                   | Some (e, s4) \<Rightarrow> Some (sign @ i @ f @ e, s4))))"

text \<open>A number of the model is valid when it is a number literal of JSON; every finite
  number is printed as one.\<close>

definition is_number_literal :: "jsnumber \<Rightarrow> bool" where
  "is_number_literal n = (scan_number n = Some (n, []))"

text \<open>\<open>CreateDataProperty\<close> on the object under construction: a repeated key keeps its
  place and takes the later value.\<close>

fun obj_put :: "(jsstring \<times> json) list \<Rightarrow> jsstring \<Rightarrow> json \<Rightarrow> (jsstring \<times> json) list" where
  "obj_put [] k v = [(k, v)]"
| "obj_put ((k', v') # ms) k v = (if k' = k then (k, v) # ms else (k', v') # obj_put ms k v)"

definition obj_of_members :: "(jsstring \<times> json) list \<Rightarrow> (jsstring \<times> json) list" where
  "obj_of_members ms = foldl (\<lambda>obj (k, v). obj_put obj k v) [] ms"

text \<open>
  The recursive descent over values. The first argument bounds the number of nested
  calls; \<open>JSON_parse\<close> passes a bound that is never reached (lemma
  \<open>JSON_parse_fuel\<close> below), so \<open>OutOfFuel\<close> is not a result of \<open>JSON_parse\<close>.
\<close>

datatype 'a parsed = OutOfFuel | Unexpected | Parsed 'a jsstring

fun map_parsed :: "('a \<Rightarrow> 'b) \<Rightarrow> 'a parsed \<Rightarrow> 'b parsed" where
  "map_parsed f (Parsed x rest) = Parsed (f x) rest"
| "map_parsed f OutOfFuel = OutOfFuel"
| "map_parsed f Unexpected = Unexpected"

text \<open>A value that is neither an object nor an array, from its first character and the
  text after it: a string, one of the three literal names, or a number.\<close>

definition parse_atom :: "jschar \<Rightarrow> jsstring \<Rightarrow> json parsed" where
  "parse_atom c rest =
     (if c = 0x22 then
        (case parse_string rest of
           None \<Rightarrow> Unexpected
         | Some (str, rest1) \<Rightarrow> Parsed (JStr str) rest1)
      else if c = 0x74 then
        (if take 3 rest = js ''rue'' then Parsed (JBool True) (drop 3 rest) else Unexpected)
      else if c = 0x66 then
        (if take 4 rest = js ''alse'' then Parsed (JBool False) (drop 4 rest) else Unexpected)
      else if c = 0x6E then
        (if take 3 rest = js ''ull'' then Parsed JNull (drop 3 rest) else Unexpected)
      else
        (case scan_number (c # rest) of
           None \<Rightarrow> Unexpected
         | Some (lit, rest1) \<Rightarrow> Parsed (JNum lit) rest1))"

text \<open>The key of a member and the colon after it.\<close>

definition parse_key :: "jsstring \<Rightarrow> (jsstring \<times> jsstring) option" where
  "parse_key s =
     (case skip_ws s of
        [] \<Rightarrow> None
      | q # rest \<Rightarrow>
          if q \<noteq> 0x22 then None
          else
            (case parse_string rest of
               None \<Rightarrow> None
             | Some (k, rest1) \<Rightarrow>
                 (case skip_ws rest1 of
                    [] \<Rightarrow> None
                  | c # rest2 \<Rightarrow> if c = 0x3A then Some (k, rest2) else None)))"

fun parse_value :: "nat \<Rightarrow> jsstring \<Rightarrow> json parsed"
  and parse_elements :: "nat \<Rightarrow> jsstring \<Rightarrow> (json list) parsed"
  and parse_members :: "nat \<Rightarrow> jsstring \<Rightarrow> ((jsstring \<times> json) list) parsed" where
  "parse_value 0 s = OutOfFuel"
| "parse_value (Suc n) s =
     (case skip_ws s of
        [] \<Rightarrow> Unexpected
      | c # rest \<Rightarrow>
          if c = 0x7B then
            (case skip_ws rest of
               [] \<Rightarrow> Unexpected
             | d # rest1 \<Rightarrow>
                 if d = 0x7D then Parsed (JObj []) rest1
                 else map_parsed (\<lambda>ms. JObj (obj_of_members ms)) (parse_members n (d # rest1)))
          else if c = 0x5B then
            (case skip_ws rest of
               [] \<Rightarrow> Unexpected
             | d # rest1 \<Rightarrow>
                 if d = 0x5D then Parsed (JArr []) rest1
                 else map_parsed JArr (parse_elements n (d # rest1)))
          else parse_atom c rest)"
| "parse_elements 0 s = OutOfFuel"
| "parse_elements (Suc n) s =
     (case parse_value n s of
        OutOfFuel \<Rightarrow> OutOfFuel
      | Unexpected \<Rightarrow> Unexpected
      | Parsed v rest \<Rightarrow>
          (case skip_ws rest of
             [] \<Rightarrow> Unexpected
           | c # rest1 \<Rightarrow>
               if c = 0x5D then Parsed [v] rest1
               else if c = 0x2C then map_parsed ((#) v) (parse_elements n rest1)
               else Unexpected))"
| "parse_members 0 s = OutOfFuel"
| "parse_members (Suc n) s =
     (case parse_key s of
        None \<Rightarrow> Unexpected
      | Some (k, rest) \<Rightarrow>
          (case parse_value n rest of
             OutOfFuel \<Rightarrow> OutOfFuel
           | Unexpected \<Rightarrow> Unexpected
           | Parsed v rest1 \<Rightarrow>
               (case skip_ws rest1 of
                  [] \<Rightarrow> Unexpected
                | d # rest2 \<Rightarrow>
                    if d = 0x7D then Parsed [(k, v)] rest2
                    else if d = 0x2C then map_parsed ((#) (k, v)) (parse_members n rest2)
                    else Unexpected)))"

text \<open>\<open>JSON.parse\<close>: one value, white space around it, nothing else; a text that is not
  of this form throws \<open>SyntaxError\<close>.\<close>

definition JSON_parse :: "jsstring \<Rightarrow> json option" where
  "JSON_parse s =
     (case parse_value (2 * length s + 2) s of
        Parsed v rest \<Rightarrow> if skip_ws rest = [] then Some v else None
      | _ \<Rightarrow> None)"

section \<open>Share link (\<open>handleShareLink\<close> in \<open>ArticleView.tsx\<close>, \<open>handleHashChange\<close> in \<open>App.tsx\<close>)\<close>

subsection \<open>Typed values and the objects that carry them\<close>

text \<open>
  The object of an article lists the properties of \<open>BlogPostData\<close> in the order of
  their declaration; an optional property that is undefined is absent. The objects
  below are what \<open>JSON.stringify\<close> is given and what \<open>JSON.parse\<close> gives back.
\<close>

definition ChartType_json :: "ChartType \<Rightarrow> json" where
  "ChartType_json t =
     (case t of bar \<Rightarrow> JStr (js ''bar'') | pie \<Rightarrow> JStr (js ''pie'') | line \<Rightarrow> JStr (js ''line''))"

definition ChartDataPoint_json :: "ChartDataPoint \<Rightarrow> json" where
  "ChartDataPoint_json p = JObj [(js ''name'', JStr (name p)), (js ''value'', JNum (value' p))]"

definition BlogChart_json :: "BlogChart \<Rightarrow> json" where
  "BlogChart_json c =
     JObj [(js ''title'', JStr (BlogChart.title c)),
           (js ''type'', ChartType_json (type' c)),
           (js ''data'', JArr (map ChartDataPoint_json (BlogChart.data c)))]"

definition SponsoredLink_json :: "SponsoredLink \<Rightarrow> json" where
  "SponsoredLink_json l =
     JObj [(js ''anchor'', JStr (anchor l)), (js ''url'', JStr (url l)),
           (js ''description'', JStr (description l))]"

definition BlogPostData_json :: "BlogPostData \<Rightarrow> json" where
  "BlogPostData_json d =
     JObj ([(js ''title'', JStr (BlogPostData.title d)),
            (js ''introduction'', JStr (introduction d)),
            (js ''body'', JStr (body d)),
            (js ''conclusion'', JStr (conclusion d))] @
           (case chart d of None \<Rightarrow> [] | Some c \<Rightarrow> [(js ''chart'', BlogChart_json c)]) @
           [(js ''imagePrompt'', JStr (imagePrompt d))] @
           (case sponsoredLink d of
              None \<Rightarrow> []
            | Some l \<Rightarrow> [(js ''sponsoredLink'', SponsoredLink_json l)]))"

text \<open>Property access \<open>value.key\<close> for the keys the application reads; \<open>None\<close> is
  \<open>undefined\<close>.\<close>

definition js_get :: "json \<Rightarrow> jsstring \<Rightarrow> json option" where
  "js_get j k = (case j of JObj ms \<Rightarrow> map_of ms k | _ \<Rightarrow> None)"

text \<open>Reading an article back from an object. \<open>JSON.parse\<close> returns an untyped value
  that the code uses as a \<open>BlogPostData\<close> without a check: \<open>as_BlogPostData\<close> succeeds
  exactly on the objects of articles.\<close>

definition ChartType_of_json :: "json \<Rightarrow> ChartType option" where
  "ChartType_of_json j =
     (if j = JStr (js ''bar'') then Some bar
      else if j = JStr (js ''pie'') then Some pie
      else if j = JStr (js ''line'') then Some line
      else None)"

definition ChartDataPoint_of_json :: "json \<Rightarrow> ChartDataPoint option" where
  "ChartDataPoint_of_json j =
     (case (js_get j (js ''name''), js_get j (js ''value'')) of
        (Some (JStr n), Some (JNum v)) \<Rightarrow> Some \<lparr>name = n, value' = v\<rparr>
      | _ \<Rightarrow> None)"

definition BlogChart_of_json :: "json \<Rightarrow> BlogChart option" where
  "BlogChart_of_json j =
     (case (js_get j (js ''title''), js_get j (js ''type''), js_get j (js ''data'')) of
        (Some (JStr t), Some ty, Some (JArr ps)) \<Rightarrow>
          (case (ChartType_of_json ty, those (map ChartDataPoint_of_json ps)) of
             (Some ty', Some ps') \<Rightarrow> Some \<lparr>BlogChart.title = t, type' = ty', data = ps'\<rparr>
           | _ \<Rightarrow> None)
      | _ \<Rightarrow> None)"

definition SponsoredLink_of_json :: "json \<Rightarrow> SponsoredLink option" where
  "SponsoredLink_of_json j =
     (case (js_get j (js ''anchor''), js_get j (js ''url''), js_get j (js ''description'')) of
        (Some (JStr a), Some (JStr u), Some (JStr d)) \<Rightarrow>
          Some \<lparr>anchor = a, url = u, description = d\<rparr>
      | _ \<Rightarrow> None)"

definition optional :: "(json \<Rightarrow> 'a option) \<Rightarrow> json option \<Rightarrow> 'a option option" where
  "optional f j = (case j of None \<Rightarrow> Some None | Some v \<Rightarrow> map_option Some (f v))"

definition BlogPostData_of_json :: "json \<Rightarrow> BlogPostData option" where
  "BlogPostData_of_json j =
     (case (js_get j (js ''title''), js_get j (js ''introduction''), js_get j (js ''body''),
            js_get j (js ''conclusion''), js_get j (js ''imagePrompt'')) of
        (Some (JStr t), Some (JStr i), Some (JStr b), Some (JStr c), Some (JStr p)) \<Rightarrow>
          (case (optional BlogChart_of_json (js_get j (js ''chart'')),
                 optional SponsoredLink_of_json (js_get j (js ''sponsoredLink''))) of
             (Some ch, Some sl) \<Rightarrow>
               Some \<lparr>BlogPostData.title = t, introduction = i, body = b, conclusion = c,
                     chart = ch, imagePrompt = p, sponsoredLink = sl\<rparr>
           | _ \<Rightarrow> None)
      | _ \<Rightarrow> None)"

definition as_BlogPostData :: "json \<Rightarrow> BlogPostData option" where
  "as_BlogPostData j =
     (case BlogPostData_of_json j of
        None \<Rightarrow> None
      | Some d \<Rightarrow> if BlogPostData_json d = j then Some d else None)"

text \<open>An article whose numbers are number literals: what a finite number prints as.\<close>

definition valid_numbers :: "BlogPostData \<Rightarrow> bool" where
  "valid_numbers d =
     (case chart d of
        None \<Rightarrow> True
      | Some c \<Rightarrow> list_all (\<lambda>p. is_number_literal (value' p)) (BlogChart.data c))"

subsection \<open>\<open>handleShareLink\<close>\<close>

record Location =
  origin :: jsstring
  pathname :: jsstring

text \<open>\<open>{ data: data, category: category, logo: includeLogo ? logo : null }\<close>\<close>

definition sharePayload :: "BlogPostData \<Rightarrow> jsstring \<Rightarrow> jsstring option \<Rightarrow> bool \<Rightarrow> json" where
  "sharePayload d category' logo' includeLogo =
     JObj [(js ''data'', BlogPostData_json d),
           (js ''category'', JStr category'),
           (js ''logo'', if includeLogo then (case logo' of None \<Rightarrow> JNull | Some l \<Rightarrow> JStr l)
                         else JNull)]"

text \<open>\<open>btoa(encodeURIComponent(json).replace(/%([0-9A-F]{2})/g, toSolidBytes))\<close>\<close>

definition encoded :: "jsstring \<Rightarrow> jsstring option" where
  "encoded json' =
     (case encodeURIComponent json' of
        None \<Rightarrow> None
      | Some escaped \<Rightarrow> btoa (toSolidBytes escaped))"

definition generateUrl ::
  "Location \<Rightarrow> BlogPostData \<Rightarrow> jsstring \<Rightarrow> jsstring option \<Rightarrow> bool \<Rightarrow> jsstring option" where
  "generateUrl loc d category' logo' includeLogo =
     (case encoded (JSON_stringify (sharePayload d category' logo' includeLogo)) of
        None \<Rightarrow> None
      | Some e \<Rightarrow> Some (origin loc @ pathname loc @ js ''#share='' @ e))"

text \<open>The truth value of \<open>logo\<close> (\<open>!!logo\<close>): a string that is not empty.\<close>

definition has_logo :: "jsstring option \<Rightarrow> bool" where
  "has_logo logo' = (case logo' of None \<Rightarrow> False | Some l \<Rightarrow> l \<noteq> [])"

text \<open>The result is the text handed to \<open>navigator.clipboard.writeText\<close>, or \<open>None\<close> when
  an exception reaches the \<open>catch\<close> block before that.\<close>

definition handleShareLink ::
  "Location \<Rightarrow> BlogPostData \<Rightarrow> jsstring \<Rightarrow> jsstring option \<Rightarrow> jsstring option" where
  "handleShareLink loc d category' logo' =
     (case generateUrl loc d category' logo' (has_logo logo') of
        None \<Rightarrow> None
      | Some url' \<Rightarrow>
          if length url' > 30000 \<and> has_logo logo'
          then generateUrl loc d category' logo' False
          else Some url')"

subsection \<open>\<open>handleHashChange\<close>\<close>

text \<open>\<open>String.prototype.replace\<close> with a string pattern replaces the first occurrence.\<close>

fun String_replace :: "jsstring \<Rightarrow> jsstring \<Rightarrow> jsstring \<Rightarrow> jsstring" where
  "String_replace pat rep [] = (if pat = [] then rep else [])"
| "String_replace pat rep (c # cs) =
     (if prefix pat (c # cs) then rep @ drop (length pat) (c # cs)
      else c # String_replace pat rep cs)"

text \<open>The three calls of the \<open>try\<close> block that can throw.\<close>

definition decoded_payload :: "jsstring \<Rightarrow> json option" where
  "decoded_payload encoded' =
     (case atob encoded' of
        None \<Rightarrow> None
      | Some binary \<Rightarrow>
          (case decodeURIComponent (percentEscapeAll binary) of
             None \<Rightarrow> None
           | Some decoded \<Rightarrow> JSON_parse decoded))"

text \<open>
  The handler stores what it finds in the payload without checking its type. The model
  follows it as long as the stored values have the declared types of the state
  variables; \<open>Outside\<close> stands for every other case (a value of another type is stored,
  or the branch taken depends on the value of a number).
\<close>

datatype 'a typed = Typed 'a | Outside

text \<open>The truth value of \<open>payload.data\<close>, where it does not depend on a number.\<close>

definition truthy :: "json option \<Rightarrow> bool option" where
  "truthy v =
     (case v of
        None \<Rightarrow> Some False
      | Some JNull \<Rightarrow> Some False
      | Some (JBool b) \<Rightarrow> Some b
      | Some (JStr s) \<Rightarrow> Some (s \<noteq> [])
      | Some (JNum n) \<Rightarrow> None
      | Some (JArr vs) \<Rightarrow> Some True
      | Some (JObj ms) \<Rightarrow> Some True)"

text \<open>\<open>payload.category || ''\<close> and \<open>payload.logo || null\<close>, as values of the types of
  the state variables.\<close>

definition category_or_empty :: "json option \<Rightarrow> jsstring option" where
  "category_or_empty v =
     (case v of
        None \<Rightarrow> Some []
      | Some JNull \<Rightarrow> Some []
      | Some (JBool b) \<Rightarrow> (if b then None else Some [])
      | Some (JStr s) \<Rightarrow> Some s
      | Some _ \<Rightarrow> None)"

definition logo_or_null :: "json option \<Rightarrow> jsstring option option" where
  "logo_or_null v =
     (case v of
        None \<Rightarrow> Some None
      | Some JNull \<Rightarrow> Some None
      | Some (JBool b) \<Rightarrow> (if b then None else Some None)
      | Some (JStr s) \<Rightarrow> Some (if s = [] then None else Some s)
      | Some _ \<Rightarrow> None)"

definition handleHashChange :: "jsstring \<Rightarrow> AppState \<Rightarrow> AppState typed" where
  "handleHashChange hash s =
     (if prefix (js ''#share='') hash then
        (case decoded_payload (String_replace (js ''#share='') [] hash) of
           None \<Rightarrow> Typed s
         | Some payload \<Rightarrow>
             (case truthy (js_get payload (js ''data'')) of
                None \<Rightarrow> Outside
              | Some False \<Rightarrow> Typed s
              | Some True \<Rightarrow>
                  (case (Option.bind (js_get payload (js ''data'')) as_BlogPostData,
                         category_or_empty (js_get payload (js ''category'')),
                         logo_or_null (js_get payload (js ''logo''))) of
                     (Some d, Some c, Some l) \<Rightarrow>
                       Typed (s\<lparr>blogData := Some d, currentCategory := c, logo := l\<rparr>)
                   | _ \<Rightarrow> Outside)))
      else Typed s)"

section \<open>Topic suggestions (\<open>generateTrendingTopics\<close> in \<open>services/geminiService.ts\<close>)\<close>

text \<open>The two global replacements that delete the Markdown code fences (three
  backquotes followed by \<open>json\<close>, then three backquotes): every occurrence of a fixed
  text is removed, from left to right.\<close>

function remove_all :: "jsstring \<Rightarrow> jsstring \<Rightarrow> jsstring" where
  "remove_all pat [] = []"
| "remove_all pat (c # cs) =
     (if pat \<noteq> [] \<and> prefix pat (c # cs) then remove_all pat (drop (length pat) (c # cs))
      else c # remove_all pat cs)"
  by pat_completeness auto
termination
  by (relation "measure (\<lambda>(pat, s). length s)") auto

text \<open>
  \<open>cleanText.match(/\[[\s\S]*\]/)\<close>: the match starts at the first \<open>[\<close> and, the
  star being greedy, ends at the last \<open>]\<close> after it; there is no match when no \<open>]\<close>
  follows the first \<open>[\<close>.
\<close>

definition match_array :: "jsstring \<Rightarrow> jsstring option" where
  "match_array s =
     (case dropWhile (\<lambda>c. c \<noteq> 0x5B) s of
        [] \<Rightarrow> None
      | c # rest \<Rightarrow>
          if 0x5D \<in> set rest
          then Some (c # rev (dropWhile (\<lambda>c. c \<noteq> 0x5D) (rev rest)))
          else None)"

record Source =
  title :: jsstring
  uri :: jsstring

text \<open>\<open>response.candidates?.[0]?.groundingMetadata?.groundingChunks || []\<close> and the loop
  that collects the sources.\<close>

definition grounding_chunks :: "GenerateContentResponse \<Rightarrow> GroundingChunk list" where
  "grounding_chunks response =
     (case candidates response of
        None \<Rightarrow> []
      | Some [] \<Rightarrow> []
      | Some (c # _) \<Rightarrow>
          (case groundingMetadata c of
             None \<Rightarrow> []
           | Some m \<Rightarrow> (case groundingChunks m of None \<Rightarrow> [] | Some cs \<Rightarrow> cs)))"

fun collect_sources :: "GroundingChunk list \<Rightarrow> Source list" where
  "collect_sources [] = []"
| "collect_sources (chunk # chunks) =
     (case web chunk of
        None \<Rightarrow> collect_sources chunks
      | Some w \<Rightarrow>
          (case GroundingChunkWeb.uri w of
             None \<Rightarrow> collect_sources chunks
           | Some u \<Rightarrow>
               if u = [] then collect_sources chunks
               else \<lparr>Source.title =
                       (case GroundingChunkWeb.title w of
                          None \<Rightarrow> [0x179] @ js ''r'' @ [0xF3] @ js ''d'' @ [0x142] @ js ''o''
                        | Some t \<Rightarrow>
                            if t = [] then [0x179] @ js ''r'' @ [0xF3] @ js ''d'' @ [0x142] @ js ''o''
                            else t),
                     uri = u\<rparr> # collect_sources chunks))"

text \<open>
  The reply of the grounded request is turned into the topics and the sources. The
  parsed array is returned as it is (the code does not check its entries); an exception
  of \<open>JSON.parse\<close> is caught, logged and thrown again.
\<close>

definition generateTrendingTopics ::
  "js_error + GenerateContentResponse \<Rightarrow> js_error + json \<times> Source list" where
  "generateTrendingTopics reply =
     (case reply of
        Inl e \<Rightarrow> Inl e
      | Inr response \<Rightarrow>
          (let text'' = (case GenerateContentResponse.text' response of None \<Rightarrow> [] | Some t \<Rightarrow> t);
               cleanText = remove_all ([0x60, 0x60, 0x60]) (remove_all (([0x60, 0x60, 0x60] @ js ''json'')) text'')
           in case match_array cleanText of
                None \<Rightarrow> Inr (JArr [], collect_sources (grounding_chunks response))
              | Some m \<Rightarrow>
                  (case JSON_parse m of
                     None \<Rightarrow> Inl SyntaxError
                   | Some topics \<Rightarrow> Inr (topics, collect_sources (grounding_chunks response)))))"

text \<open>The suggestions the editor expects, as the array that carries them.\<close>

record TopicSuggestion =
  title :: jsstring
  description :: jsstring

definition TopicSuggestion_json :: "TopicSuggestion \<Rightarrow> json" where
  "TopicSuggestion_json t =
     JObj [(js ''title'', JStr (TopicSuggestion.title t)),
           (js ''description'', JStr (TopicSuggestion.description t))]"

section \<open>Sample values\<close>

definition sampleArticle :: "jsstring \<Rightarrow> jsstring \<Rightarrow> BlogPostData" where
  "sampleArticle t b =
     \<lparr>BlogPostData.title = t, introduction = js ''intro'', body = b, conclusion = js ''outro'',
      chart = None, imagePrompt = js ''a cover'', sponsoredLink = None\<rparr>"


definition sampleShown :: "jsstring \<Rightarrow> jsstring option \<Rightarrow> Shown" where
  "sampleShown t img =
     \<lparr>shownTitle = t, shownCategory = js ''Zdrowie'', shownImage = img,
      shownAt = js ''1700000000000'', shownDate = js ''14.11.2023''\<rparr>"

definition sampleEntry :: "jsstring \<Rightarrow> StoredArticle" where
  "sampleEntry t =
     \<lparr>id = js ''1700000000000'', StoredArticle.title = t, category = js ''Zdrowie'',
      date = js ''14.11.2023'', thumbnail = None\<rparr>"

definition sessionWithArticle :: AppState where
  "sessionWithArticle =
     initialState\<lparr>blogData := Some (sampleArticle (js ''T'') (js ''A'')),
                  currentCategory := js ''Zdrowie''\<rparr>"

definition ideasResponse :: GenerateContentResponse where
  "ideasResponse = \<lparr>text' = Some (js ''Here are some ideas:'' @
     [0xA] @
     js ''[{'' @
     [0x22] @
     js ''title'' @
     [0x22] @
     js '':'' @
     [0x22] @
     js ''X'' @
     [0x22] @
     js '','' @
     [0x22] @
     js ''description'' @
     [0x22] @
     js '':'' @
     [0x22] @
     js ''Y'' @
     [0x22] @
     js ''}]'' @
     [0xA] @
     js ''Hope this helps!''), candidates = None\<rparr>"

section \<open>Properties of the generation client and the article session\<close>

lemma String_slice_neg: "0 < n \<Longrightarrow> String_slice (- int n) s = drop (length s - n) s"
  by (auto simp: String_slice_def Let_def max_def nat_diff_distrib')

lemma String_slice_500: "String_slice (- 500) s = drop (length s - 500) s"
  using String_slice_neg[of 500 s] by simp

text \<open>
  Claim C5. When a continuation succeeds with text \<open>B\<close> while the session holds an
  article with body \<open>A\<close>, the body becomes exactly \<open>A + "\n\n" + B\<close> and every other
  field of the article keeps its value; the old body is a prefix of the new one. An
  empty or missing response text gives \<open>B = ""\<close>, hence the body \<open>A + "\n\n"\<close>.
\<close>

theorem continuation_appends_to_body:
  assumes "blogData s = Some a" and "generateMoreContent_result reply = Inr B"
  shows "\<exists>a'. blogData (handleGenerateMore_settled reply s) = Some a' \<and>
           a' = a\<lparr>body := body a @ [0xA, 0xA] @ B\<rparr> \<and>
           body a' = body a @ [0xA, 0xA] @ B \<and>
           BlogPostData.title a' = BlogPostData.title a \<and>
           introduction a' = introduction a \<and>
           conclusion a' = conclusion a \<and>
           imagePrompt a' = imagePrompt a \<and>
           chart a' = chart a \<and>
           sponsoredLink a' = sponsoredLink a \<and>
           prefix (body a) (body a')"
  using assms by (simp add: handleGenerateMore_settled_def)

theorem continuation_appends_to_body_witness:
  "blogData (initialState\<lparr>blogData := Some (sampleArticle (js ''T'') (js ''A''))\<rparr>) =
     Some (sampleArticle (js ''T'') (js ''A'')) \<and>
   generateMoreContent_result (Inr \<lparr>text' = Some (js ''B''), candidates = None\<rparr>) = Inr (js ''B'') \<and>
   generateMoreContent_result (Inr \<lparr>text' = None, candidates = None\<rparr>) = Inr [] \<and>
   blogData (handleGenerateMore_settled (Inr \<lparr>text' = Some (js ''B''), candidates = None\<rparr>)
      (initialState\<lparr>blogData := Some (sampleArticle (js ''T'') (js ''A''))\<rparr>)) =
     Some (sampleArticle (js ''T'') (js ''A'' @ [0xA, 0xA] @ js ''B'')) \<and>
   blogData (handleGenerateMore_settled (Inr \<lparr>text' = None, candidates = None\<rparr>)
      (initialState\<lparr>blogData := Some (sampleArticle (js ''T'') (js ''A''))\<rparr>)) =
     Some (sampleArticle (js ''T'') (js ''A'' @ [0xA, 0xA]))"
  using continuation_appends_to_body
      [of "initialState\<lparr>blogData := Some (sampleArticle (js ''T'') (js ''A''))\<rparr>"
      "sampleArticle (js ''T'') (js ''A'')" "Inr \<lparr>text' = Some (js ''B''), candidates = None\<rparr>"
      "js ''B''"]
    continuation_appends_to_body
      [of "initialState\<lparr>blogData := Some (sampleArticle (js ''T'') (js ''A''))\<rparr>"
      "sampleArticle (js ''T'') (js ''A'')" "Inr \<lparr>text' = None, candidates = None\<rparr>" "[]"]
  by (simp add: generateMoreContent_result_def sampleArticle_def js_def)

text \<open>
  Claim C9. The continuation request is a function of the title and of the last 500
  code units of the body (the whole body when it is shorter): two bodies with the same
  tail give the same request, the request for a body is the request for its tail, and
  the prompt is longer than the fixed template by the title and at most 500 code units
  of the body.
\<close>

theorem continuation_request_depends_on_tail:
  "(drop (length b1 - 500) b1 = drop (length b2 - 500) b2 \<longrightarrow>
      generateMoreContent_request t b1 = generateMoreContent_request t b2) \<and>
   generateMoreContent_request t b = generateMoreContent_request t (drop (length b - 500) b) \<and>
   length (contents (generateMoreContent_request t b)) =
     length (contents (generateMoreContent_request [] [])) + length t + min 500 (length b)"
  by (simp add: generateMoreContent_request_def generateMoreContent_prompt_def String_slice_500 js_def)

theorem continuation_request_depends_on_tail_witness:
  "drop (length (replicate 600 (0x61::jschar) @ js ''tail'') - 500) (replicate 600 0x61 @ js ''tail'') =
   drop (length (replicate 900 (0x62::jschar) @ replicate 496 0x61 @ js ''tail'') - 500)
        (replicate 900 0x62 @ replicate 496 0x61 @ js ''tail'') \<and>
   generateMoreContent_request (js ''T'') (replicate 600 0x61 @ js ''tail'') =
   generateMoreContent_request (js ''T'') (replicate 900 0x62 @ replicate 496 0x61 @ js ''tail'')"
proof -
  have h: "drop (length (replicate 600 (0x61::jschar) @ js ''tail'') - 500) (replicate 600 0x61 @ js ''tail'') =
   drop (length (replicate 900 (0x62::jschar) @ replicate 496 0x61 @ js ''tail'') - 500)
        (replicate 900 0x62 @ replicate 496 0x61 @ js ''tail'')"
    by (simp add: js_def)
  from h continuation_request_depends_on_tail [of "replicate 600 0x61 @ js ''tail''"
      "replicate 900 0x62 @ replicate 496 0x61 @ js ''tail''" "js ''T''"]
  show ?thesis by blast
qed

lemma first_inline_image_append:
  "list_all (\<lambda>q. inlineData q = None) ps1 \<Longrightarrow>
   first_inline_image (ps1 @ ps) = first_inline_image ps"
  by (induction ps1) auto

lemma first_inline_image_Inr:
  "first_inline_image ps = Inr u \<Longrightarrow>
   \<exists>ps1 p d ps2. ps = ps1 @ p # ps2 \<and> list_all (\<lambda>q. inlineData q = None) ps1 \<and>
      inlineData p = Some d \<and> u = js ''data:image/png;base64,'' @ InlineData.data d"
proof (induction ps)
  case Nil
  then show ?case by simp
next
  case (Cons q ps)
  show ?case
  proof (cases "inlineData q")
    case None
    with Cons obtain ps1 p d ps2 where
      "ps = ps1 @ p # ps2" "list_all (\<lambda>q. inlineData q = None) ps1"
      "inlineData p = Some d" "u = js ''data:image/png;base64,'' @ InlineData.data d"
      by auto
    with None have "q # ps = (q # ps1) @ p # ps2 \<and> list_all (\<lambda>q. inlineData q = None) (q # ps1) \<and>
      inlineData p = Some d \<and> u = js ''data:image/png;base64,'' @ InlineData.data d"
      by simp
    then show ?thesis by blast
  next
    case (Some d)
    with Cons.prems have "q # ps = [] @ q # ps \<and> list_all (\<lambda>q. inlineData q = None) [] \<and>
      inlineData q = Some d \<and> u = js ''data:image/png;base64,'' @ InlineData.data d"
      by auto
    then show ?thesis by blast
  qed
qed

text \<open>
  Claim C10. Image generation succeeds with \<open>u\<close> exactly when the parts of the first
  candidate contain a part with inline data, and then \<open>u\<close> is the fixed prefix
  \<open>data:image/png;base64,\<close> followed by the data of the first such part: neither the
  declared mime type of the part nor any later part enters the result.
\<close>

theorem generateBlogImage_first_inline_part:
  "generateBlogImage (Inr r) = Inr u \<longleftrightarrow>
   (\<exists>ps1 p d ps2. response_parts r = ps1 @ p # ps2 \<and>
      list_all (\<lambda>q. inlineData q = None) ps1 \<and> inlineData p = Some d \<and>
      u = js ''data:image/png;base64,'' @ InlineData.data d)"
proof
  assume "generateBlogImage (Inr r) = Inr u"
  then show "\<exists>ps1 p d ps2. response_parts r = ps1 @ p # ps2 \<and>
      list_all (\<lambda>q. inlineData q = None) ps1 \<and> inlineData p = Some d \<and>
      u = js ''data:image/png;base64,'' @ InlineData.data d"
    using first_inline_image_Inr[of "response_parts r" u] by (simp add: generateBlogImage_def)
next
  assume "\<exists>ps1 p d ps2. response_parts r = ps1 @ p # ps2 \<and>
      list_all (\<lambda>q. inlineData q = None) ps1 \<and> inlineData p = Some d \<and>
      u = js ''data:image/png;base64,'' @ InlineData.data d"
  then show "generateBlogImage (Inr r) = Inr u"
    by (auto simp: generateBlogImage_def first_inline_image_append)
qed



lemma run_append: "run s (xs @ ys) = run (run s xs) ys"
  by (simp add: run_def)










section \<open>Properties of the history cache\<close>

lemma storedList_saveArticle_length:
  "length (storedList st) \<le> 3 \<Longrightarrow>
   length (storedList (saveArticle accepts now today t c img st)) \<le> 3"
  by (auto simp: saveArticle_def storedList_def Let_def split: option.splits)

lemma storedList_foldl_length:
  "length (storedList st) \<le> 3 \<Longrightarrow> length (storedList (foldl (saveShown accepts) st as)) \<le> 3"
  by (induction as arbitrary: st) (simp_all add: saveShown_def storedList_saveArticle_length)

lemma saveArticle_fresh:
  assumes "\<not> list_ex (\<lambda>h. StoredArticle.title h = t) (storedList st)"
    and "e = \<lparr>id = now, StoredArticle.title = t, category = c, date = today, thumbnail = img\<rparr>"
    and "h2 = (if length (e # storedList st) > 3 then butlast (e # storedList st)
               else e # storedList st)"
    and "h3 = h2[0 := e\<lparr>thumbnail := None\<rparr>]"
  shows "saveArticle accepts now today t c img st =
         (if accepts h2 then
            \<lparr>stored = Some h2, recentArticles = filter (\<lambda>h. StoredArticle.title h \<noteq> t) h2\<rparr>
          else if accepts h3 then
            \<lparr>stored = Some h3, recentArticles = filter (\<lambda>h. StoredArticle.title h \<noteq> t) h3\<rparr>
          else st)"
  using assms(1) unfolding assms(2-4) saveArticle_def storedList_def Let_def by simp

lemma saveArticle_titles:
  assumes "length (storedList st) \<le> 3"
    and "t \<notin> set (map StoredArticle.title (storedList st))"
    and "\<forall>h. h \<noteq> [] \<and> thumbnail (hd h) = None \<longrightarrow> accepts h"
  shows "map StoredArticle.title (storedList (saveArticle accepts now today t c img st)) =
         take 3 (t # map StoredArticle.title (storedList st))"
proof -
  define e where "e = \<lparr>id = now, StoredArticle.title = t, category = c, date = today, thumbnail = img\<rparr>"
  define h2 where "h2 = (if length (e # storedList st) > 3 then butlast (e # storedList st)
               else e # storedList st)"
  define h3 where "h3 = h2[0 := e\<lparr>thumbnail := None\<rparr>]"
  have notin: "\<not> list_ex (\<lambda>h. StoredArticle.title h = t) (storedList st)"
    using assms(2) by (auto simp: list_ex_iff)
  have h2eq: "h2 = take 3 (e # storedList st)"
  proof (cases "length (storedList st) = 3")
    case True
    then show ?thesis by (simp add: h2_def butlast_conv_take)
  next
    case False
    with assms(1) show ?thesis by (simp add: h2_def)
  qed
  have h2: "map StoredArticle.title h2 = take 3 (t # map StoredArticle.title (storedList st))"
    unfolding h2eq by (simp add: take_map e_def)
  have ne: "h2 \<noteq> []" unfolding h2eq by simp
  have "map StoredArticle.title h3 = (map StoredArticle.title h2)[0 := t]"
    by (simp add: h3_def map_update e_def)
  also have "\<dots> = take 3 (t # map StoredArticle.title (storedList st))"
    unfolding h2 by simp
  finally have h3: "map StoredArticle.title h3 =
            take 3 (t # map StoredArticle.title (storedList st))" .
  have "h3 \<noteq> [] \<and> thumbnail (hd h3) = None"
    using ne by (cases h2) (simp_all add: h3_def)
  with assms(3) have acc: "accepts h3" by blast
  show ?thesis
    unfolding saveArticle_fresh [OF notin e_def h2_def h3_def]
    using h2 h3 acc by (simp add: storedList_def)
qed

text \<open>
  Claim C6. Starting from an absent slot, five articles with pairwise distinct titles
  are shown in sequence; the storage accepts at least every list whose newest entry has
  no thumbnail. Then the stored list has exactly three entries, the titles of the last
  three articles, newest first, and the titles of the first two are gone. Whatever the
  storage accepts, no sequence of calls leaves more than three entries in the slot.
\<close>

theorem history_keeps_three_most_recent:
  assumes "distinct [shownTitle a1, shownTitle a2, shownTitle a3, shownTitle a4, shownTitle a5]"
    and "\<forall>h. h \<noteq> [] \<and> thumbnail (hd h) = None \<longrightarrow> accepts h"
  shows "map StoredArticle.title
           (storedList (foldl (saveShown accepts) emptyHistory [a1, a2, a3, a4, a5])) =
         [shownTitle a5, shownTitle a4, shownTitle a3] \<and>
         length (storedList (foldl (saveShown accepts) emptyHistory [a1, a2, a3, a4, a5])) = 3 \<and>
         shownTitle a1 \<notin> set (map StoredArticle.title
           (storedList (foldl (saveShown accepts) emptyHistory [a1, a2, a3, a4, a5]))) \<and>
         shownTitle a2 \<notin> set (map StoredArticle.title
           (storedList (foldl (saveShown accepts) emptyHistory [a1, a2, a3, a4, a5]))) \<and>
         (\<forall>accepts' as. length (storedList (foldl (saveShown accepts') emptyHistory as)) \<le> 3)"
proof -
  have len0: "length (storedList emptyHistory) \<le> 3"
    by (simp add: storedList_def emptyHistory_def)
  have bound: "\<And>acc as. length (storedList (foldl (saveShown acc) emptyHistory as)) \<le> 3"
    using storedList_foldl_length [OF len0] .
  define s1 where "s1 = saveShown accepts emptyHistory a1"
  define s2 where "s2 = saveShown accepts s1 a2"
  define s3 where "s3 = saveShown accepts s2 a3"
  define s4 where "s4 = saveShown accepts s3 a4"
  define s5 where "s5 = saveShown accepts s4 a5"
  have l1: "length (storedList s1) \<le> 3" using bound [of accepts "[a1]"] by (simp add: s1_def)
  have l2: "length (storedList s2) \<le> 3" using bound [of accepts "[a1, a2]"] by (simp add: s1_def s2_def)
  have l3: "length (storedList s3) \<le> 3" using bound [of accepts "[a1, a2, a3]"]
    by (simp add: s1_def s2_def s3_def)
  have l4: "length (storedList s4) \<le> 3" using bound [of accepts "[a1, a2, a3, a4]"]
    by (simp add: s1_def s2_def s3_def s4_def)
  have n1: "shownTitle a1 \<notin> set (map StoredArticle.title (storedList emptyHistory))"
    by (simp add: storedList_def emptyHistory_def)
  have t1: "map StoredArticle.title (storedList s1) = [shownTitle a1]"
    unfolding s1_def saveShown_def saveArticle_titles [OF len0 n1 assms(2)]
    by (simp add: storedList_def emptyHistory_def)
  have n2: "shownTitle a2 \<notin> set (map StoredArticle.title (storedList s1))"
    unfolding t1 using assms(1) by auto
  have t2: "map StoredArticle.title (storedList s2) = [shownTitle a2, shownTitle a1]"
    unfolding s2_def saveShown_def saveArticle_titles [OF l1 n2 assms(2)] t1 by simp
  have n3: "shownTitle a3 \<notin> set (map StoredArticle.title (storedList s2))"
    unfolding t2 using assms(1) by auto
  have t3: "map StoredArticle.title (storedList s3) = [shownTitle a3, shownTitle a2, shownTitle a1]"
    unfolding s3_def saveShown_def saveArticle_titles [OF l2 n3 assms(2)] t2 by simp
  have n4: "shownTitle a4 \<notin> set (map StoredArticle.title (storedList s3))"
    unfolding t3 using assms(1) by auto
  have t4: "map StoredArticle.title (storedList s4) = [shownTitle a4, shownTitle a3, shownTitle a2]"
    unfolding s4_def saveShown_def saveArticle_titles [OF l3 n4 assms(2)] t3 by simp
  have n5: "shownTitle a5 \<notin> set (map StoredArticle.title (storedList s4))"
    unfolding t4 using assms(1) by auto
  have t5: "map StoredArticle.title (storedList s5) = [shownTitle a5, shownTitle a4, shownTitle a3]"
    unfolding s5_def saveShown_def saveArticle_titles [OF l4 n5 assms(2)] t4 by simp
  have run: "foldl (saveShown accepts) emptyHistory [a1, a2, a3, a4, a5] = s5"
    by (simp add: s1_def s2_def s3_def s4_def s5_def)
  have len5: "length (storedList s5) = 3"
    using arg_cong [OF t5, of length] by simp
  have out: "shownTitle a1 \<notin> set (map StoredArticle.title (storedList s5)) \<and>
             shownTitle a2 \<notin> set (map StoredArticle.title (storedList s5))"
    unfolding t5 using assms(1) by auto
  show ?thesis
    unfolding run using t5 len5 out bound by blast
qed

theorem history_keeps_three_most_recent_witness:
  "map StoredArticle.title
     (storedList (foldl (saveShown (\<lambda>h. thumbnail (hd h) = None)) emptyHistory
        [sampleShown (js ''a'') None, sampleShown (js ''b'') (Some (js ''data:image/png;base64,AAAA'')),
         sampleShown (js ''c'') None, sampleShown (js ''d'') (Some (js ''data:image/png;base64,BBBB'')),
         sampleShown (js ''e'') None])) =
   [js ''e'', js ''d'', js ''c'']"
  using history_keeps_three_most_recent
    [of "sampleShown (js ''a'') None" "sampleShown (js ''b'') (Some (js ''data:image/png;base64,AAAA''))"
        "sampleShown (js ''c'') None" "sampleShown (js ''d'') (Some (js ''data:image/png;base64,BBBB''))"
        "sampleShown (js ''e'') None" "\<lambda>h. thumbnail (hd h) = None"]
  by (simp add: sampleShown_def js_def)

lemma saveArticle_present:
  "list_ex (\<lambda>h. StoredArticle.title h = t) (storedList st) \<Longrightarrow>
   stored (saveArticle accepts now today t c img st) = stored st"
  by (simp add: saveArticle_def storedList_def Let_def)

lemma saveArticle_inserted:
  assumes "\<forall>h. h \<noteq> [] \<and> thumbnail (hd h) = None \<longrightarrow> accepts h"
  shows "list_ex (\<lambda>h. StoredArticle.title h = t)
           (storedList (saveArticle accepts now today t c img st))"
proof (cases "list_ex (\<lambda>h. StoredArticle.title h = t) (storedList st)")
  case True
  then show ?thesis using saveArticle_present [OF True] by (simp add: storedList_def)
next
  case False
  define e where "e = \<lparr>id = now, StoredArticle.title = t, category = c, date = today, thumbnail = img\<rparr>"
  define h2 where "h2 = (if length (e # storedList st) > 3 then butlast (e # storedList st)
               else e # storedList st)"
  define h3 where "h3 = h2[0 := e\<lparr>thumbnail := None\<rparr>]"
  have h2: "\<exists>r. h2 = e # r" by (cases "storedList st") (auto simp: h2_def)
  then obtain r where r: "h2 = e # r" by blast
  have h3: "h3 = e\<lparr>thumbnail := None\<rparr> # r" by (simp add: h3_def r)
  have "accepts h3" using assms h3 by simp
  then show ?thesis
    unfolding saveArticle_fresh [OF False e_def h2_def h3_def]
    by (simp add: storedList_def r h3 e_def)
qed

text \<open>
  Claim C7. When the title of the shown article is already in the stored list, the
  call leaves the slot as it is. Hence, when the storage accepts at least every list
  whose newest entry has no thumbnail, showing the same title a second time leaves the
  slot as the first call left it.
\<close>

theorem history_record_is_noop_on_known_title:
  "(list_ex (\<lambda>h. StoredArticle.title h = t) (storedList st) \<longrightarrow>
      stored (saveArticle accepts now today t c img st) = stored st) \<and>
   ((\<forall>h. h \<noteq> [] \<and> thumbnail (hd h) = None \<longrightarrow> accepts h) \<longrightarrow>
      stored (saveArticle accepts' now' today' t c' img'
                (saveArticle accepts now today t c img st)) =
      stored (saveArticle accepts now today t c img st))"
proof (intro conjI impI)
  assume "list_ex (\<lambda>h. StoredArticle.title h = t) (storedList st)"
  then show "stored (saveArticle accepts now today t c img st) = stored st"
    by (rule saveArticle_present)
next
  assume a: "\<forall>h. h \<noteq> [] \<and> thumbnail (hd h) = None \<longrightarrow> accepts h"
  show "stored (saveArticle accepts' now' today' t c' img'
                (saveArticle accepts now today t c img st)) =
      stored (saveArticle accepts now today t c img st)"
    by (rule saveArticle_present [OF saveArticle_inserted [OF a]])
qed

theorem history_record_is_noop_on_known_title_witness:
  "stored (saveArticle (\<lambda>h. True) (js ''1700000000001'') (js ''15.11.2023'') (js ''T'')
             (js ''Finanse'') (Some (js ''data:image/png;base64,AAAA''))
             \<lparr>stored = Some [sampleEntry (js ''U''), sampleEntry (js ''T'')], recentArticles = []\<rparr>) =
     Some [sampleEntry (js ''U''), sampleEntry (js ''T'')] \<and>
   stored (saveArticle (\<lambda>h. False) (js ''1700000000002'') (js ''15.11.2023'') (js ''N'')
             (js ''Finanse'') None
             (saveArticle (\<lambda>h. True) (js ''1700000000001'') (js ''15.11.2023'') (js ''N'')
                (js ''Finanse'') None emptyHistory)) =
   stored (saveArticle (\<lambda>h. True) (js ''1700000000001'') (js ''15.11.2023'') (js ''N'')
             (js ''Finanse'') None emptyHistory)"
  using history_record_is_noop_on_known_title
    [of "js ''T''" "\<lparr>stored = Some [sampleEntry (js ''U''), sampleEntry (js ''T'')], recentArticles = []\<rparr>"
        "\<lambda>h. True" "js ''1700000000001''" "js ''15.11.2023''" "js ''Finanse''"
        "Some (js ''data:image/png;base64,AAAA'')"]
    history_record_is_noop_on_known_title
    [of "js ''N''" emptyHistory "\<lambda>h. True" "js ''1700000000001''" "js ''15.11.2023''"
        "js ''Finanse''" None "\<lambda>h. False" "js ''1700000000002''" "js ''15.11.2023''"
        "js ''Finanse''" None]
  by (simp add: storedList_def sampleEntry_def)
section \<open>The JSON reader always returns\<close>

text \<open>Every piece of the reader that returns a rest returns a shorter one; from this the
  bound that \<open>JSON_parse\<close> passes is never used up.\<close>

lemma skip_ws_length: "length (skip_ws s) \<le> length s"
  unfolding skip_ws_def by (rule length_dropWhile_le)

lemma skip_ws_Cons: "skip_ws s = c # rest \<Longrightarrow> length rest < length s"
  using skip_ws_length [of s] by simp

lemma parse_string_shorter:
  "parse_string s = Some (x, r) \<Longrightarrow> length r < length s"
proof (induction s arbitrary: x r rule: parse_string.induct)
  case 1
  then show ?case by simp
next
  case (2 c rest)
  show ?case
  proof (cases "c = 0x22")
    case True
    with 2(3) show ?thesis by simp
  next
    case q: False
    show ?thesis
    proof (cases "c = 0x5C")
      case True
      with q 2(3) obtain e rest' s' where
        e: "parse_escape rest = Some (e, rest')" and p: "parse_string rest' = Some (s', r)"
        by (auto split: option.splits)
      from 2(1) [OF q True e refl p] parse_escape_shorter [OF e] show ?thesis by simp
    next
      case b: False
      with q 2(3) have c: "\<not> unat c < 0x20" by (auto split: if_splits)
      with q b 2(3) obtain s' where p: "parse_string rest = Some (s', r)"
        by (auto split: option.splits)
      from 2(2) [OF q b c p] show ?thesis by simp
    qed
  qed
qed

lemma scan_digits_length: "length (snd (scan_digits s)) \<le> length s"
  unfolding scan_digits_def by (simp add: length_dropWhile_le)

lemma scan_int_shorter: "scan_int s = Some (i, r) \<Longrightarrow> length r < length s"
  using scan_digits_length [of "tl s"]
  by (cases s) (auto simp: scan_int_def split: if_splits)

lemma scan_frac_shorter: "scan_frac s = Some (i, r) \<Longrightarrow> length r \<le> length s"
  using scan_digits_length [of "tl s"]
  by (cases s) (auto simp: scan_frac_def split: if_splits)

lemma scan_exp_shorter: "scan_exp s = Some (i, r) \<Longrightarrow> length r \<le> length s"
proof (cases s)
  case Nil
  assume "scan_exp s = Some (i, r)"
  with Nil show ?thesis by (simp add: scan_exp_def)
next
  case (Cons c rest)
  assume a: "scan_exp s = Some (i, r)"
  show ?thesis
  proof (cases "c = 0x65 \<or> c = 0x45")
    case False
    with a Cons show ?thesis by (auto simp: scan_exp_def)
  next
    case True
    define p where "p = (case rest of
                      [] \<Rightarrow> ([], rest)
                    | d # rest' \<Rightarrow> if d = 0x2B \<or> d = 0x2D then ([d], rest') else ([], rest))"
    have l: "length (snd p) \<le> length rest"
      by (auto simp: p_def split: list.splits)
    from a Cons True have "r = snd (scan_digits (snd p))"
      by (auto simp: scan_exp_def p_def [symmetric] split: prod.splits if_splits)
    with l scan_digits_length [of "snd p"] Cons show ?thesis by simp
  qed
qed

lemma scan_number_shorter:
  assumes "scan_number s = Some (lit, r)"
  shows "length r < length s"
proof -
  define p where "p = (case s of [] \<Rightarrow> ([], s) | c # rest \<Rightarrow> if c = 0x2D then ([c], rest) else ([], s))"
  have l: "length (snd p) \<le> length s"
    by (auto simp: p_def split: list.splits)
  from assms obtain i s2 f s3 e where
    "scan_int (snd p) = Some (i, s2)" "scan_frac s2 = Some (f, s3)" "scan_exp s3 = Some (e, r)"
    by (auto simp: scan_number_def p_def [symmetric] split: prod.splits option.splits)
  with scan_int_shorter scan_frac_shorter scan_exp_shorter l show ?thesis
    by fastforce
qed

lemma parse_atom_shorter:
  "parse_atom c rest = Parsed v r \<Longrightarrow> length r \<le> length rest"
  by (auto simp: parse_atom_def split: if_splits option.splits
           dest!: parse_string_shorter scan_number_shorter)

lemma parse_atom_fuel: "parse_atom c rest \<noteq> OutOfFuel"
  by (auto simp: parse_atom_def split: if_splits option.splits)

lemma parse_key_shorter:
  "parse_key s = Some (k, r) \<Longrightarrow> length r < length s"
  by (auto simp: parse_key_def split: list.splits if_splits option.splits
           dest!: parse_string_shorter skip_ws_Cons)

lemma map_parsed_Parsed:
  "map_parsed f p = Parsed y r \<longleftrightarrow> (\<exists>x. p = Parsed x r \<and> y = f x)"
  by (cases p) auto

lemma map_parsed_OutOfFuel: "map_parsed f p = OutOfFuel \<longleftrightarrow> p = OutOfFuel"
  by (cases p) auto


lemma parse_value_step_shorter:
  assumes IHm: "\<And>s vs r. parse_members n s = Parsed vs r \<Longrightarrow> length r < length s"
      and IHe: "\<And>s vs r. parse_elements n s = Parsed vs r \<Longrightarrow> length r < length s"
      and p: "parse_value (Suc n) s = Parsed v r"
  shows "length r < length s"
proof -
  from p obtain c rest where s: "skip_ws s = c # rest"
    by (cases "skip_ws s") auto
  have l: "length rest < length s" by (rule skip_ws_Cons [OF s])
  show ?thesis
  proof (cases "c = 0x7B")
    case True
    with p s obtain d rest1 where r: "skip_ws rest = d # rest1"
      by (cases "skip_ws rest") auto
    have l1: "length rest1 < length rest" by (rule skip_ws_Cons [OF r])
    show ?thesis
    proof (cases "d = 0x7D")
      case True
      with p s r \<open>c = 0x7B\<close> have "r = rest1" by simp
      with l l1 show ?thesis by simp
    next
      case False
      with p s r \<open>c = 0x7B\<close> obtain ms where "parse_members n (d # rest1) = Parsed ms r"
        by (auto simp: map_parsed_Parsed)
      from IHm [OF this] l l1 show ?thesis by simp
    qed
  next
    case b: False
    show ?thesis
    proof (cases "c = 0x5B")
      case True
      with p s b obtain d rest1 where r: "skip_ws rest = d # rest1"
        by (cases "skip_ws rest") auto
      have l1: "length rest1 < length rest" by (rule skip_ws_Cons [OF r])
      show ?thesis
      proof (cases "d = 0x5D")
        case True
        with p s r b \<open>c = 0x5B\<close> have "r = rest1" by simp
        with l l1 show ?thesis by simp
      next
        case False
        with p s r b \<open>c = 0x5B\<close> obtain ms where "parse_elements n (d # rest1) = Parsed ms r"
          by (auto simp: map_parsed_Parsed)
        from IHe [OF this] l l1 show ?thesis by simp
      qed
    next
      case False
      with p s b have "parse_atom c rest = Parsed v r" by simp
      from parse_atom_shorter [OF this] l show ?thesis by simp
    qed
  qed
qed

lemma parse_elements_step_shorter:
  assumes IHv: "\<And>s v r. parse_value n s = Parsed v r \<Longrightarrow> length r < length s"
      and IHe: "\<And>s vs r. parse_elements n s = Parsed vs r \<Longrightarrow> length r < length s"
      and p: "parse_elements (Suc n) s = Parsed vs r"
  shows "length r < length s"
proof -
  from p obtain v rest where v: "parse_value n s = Parsed v rest"
    by (cases "parse_value n s") auto
  from p v obtain c rest1 where s: "skip_ws rest = c # rest1"
    by (cases "skip_ws rest") auto
  have l: "length rest1 < length s"
    using IHv [OF v] skip_ws_Cons [OF s] by simp
  show ?thesis
  proof (cases "c = 0x5D")
    case True
    with p v s have "r = rest1" by simp
    with l show ?thesis by simp
  next
    case False
    with p v s obtain vs' where "parse_elements n rest1 = Parsed vs' r"
      by (auto simp: map_parsed_Parsed split: if_splits)
    from IHe [OF this] l show ?thesis by simp
  qed
qed

lemma parse_members_step_shorter:
  assumes IHv: "\<And>s v r. parse_value n s = Parsed v r \<Longrightarrow> length r < length s"
      and IHm: "\<And>s vs r. parse_members n s = Parsed vs r \<Longrightarrow> length r < length s"
      and p: "parse_members (Suc n) s = Parsed ms r"
  shows "length r < length s"
proof -
  from p obtain k rest where k: "parse_key s = Some (k, rest)"
    by (cases "parse_key s") auto
  from p k obtain v rest1 where v: "parse_value n rest = Parsed v rest1"
    by (cases "parse_value n rest") auto
  from p k v obtain c rest2 where s: "skip_ws rest1 = c # rest2"
    by (cases "skip_ws rest1") auto
  have l: "length rest2 < length s"
    using parse_key_shorter [OF k] IHv [OF v] skip_ws_Cons [OF s] by simp
  show ?thesis
  proof (cases "c = 0x7D")
    case True
    with p k v s have "r = rest2" by simp
    with l show ?thesis by simp
  next
    case False
    with p k v s obtain ms' where "parse_members n rest2 = Parsed ms' r"
      by (auto simp: map_parsed_Parsed split: if_splits)
    from IHm [OF this] l show ?thesis by simp
  qed
qed

lemma parse_shorter:
  "(\<forall>s v r. parse_value n s = Parsed v r \<longrightarrow> length r < length s) \<and>
   (\<forall>s vs r. parse_elements n s = Parsed vs r \<longrightarrow> length r < length s) \<and>
   (\<forall>s ms r. parse_members n s = Parsed ms r \<longrightarrow> length r < length s)"
proof (induction n)
  case 0
  show ?case by simp
next
  case (Suc n)
  show ?case
  proof (intro conjI allI impI)
    fix s v r assume "parse_value (Suc n) s = Parsed v r"
    with Suc show "length r < length s" by (blast intro: parse_value_step_shorter)
  next
    fix s vs r assume "parse_elements (Suc n) s = Parsed vs r"
    with Suc show "length r < length s" by (blast intro: parse_elements_step_shorter)
  next
    fix s ms r assume "parse_members (Suc n) s = Parsed ms r"
    with Suc show "length r < length s" by (blast intro: parse_members_step_shorter)
  qed
qed

lemma parse_value_shorter: "parse_value n s = Parsed v r \<Longrightarrow> length r < length s"
  using parse_shorter by blast

lemma parse_value_step_fuel:
  assumes IHm: "\<And>s. 2 * length s + 2 \<le> n \<Longrightarrow> parse_members n s \<noteq> OutOfFuel"
      and IHe: "\<And>s. 2 * length s + 2 \<le> n \<Longrightarrow> parse_elements n s \<noteq> OutOfFuel"
      and n: "2 * length s + 1 \<le> Suc n"
  shows "parse_value (Suc n) s \<noteq> OutOfFuel"
proof (cases "skip_ws s")
  case Nil
  then show ?thesis by simp
next
  case (Cons c rest)
  have l: "length rest < length s" by (rule skip_ws_Cons [OF Cons])
  show ?thesis
  proof (cases "skip_ws rest")
    case Nil
    with Cons show ?thesis by (simp add: parse_atom_fuel)
  next
    case r: (Cons d rest1)
    have "length rest1 < length rest" by (rule skip_ws_Cons [OF r])
    with l n have "2 * length (d # rest1) + 2 \<le> n" by simp
    from IHm [OF this] IHe [OF this] Cons r show ?thesis
      by (auto simp: parse_atom_fuel map_parsed_OutOfFuel)
  qed
qed

lemma parse_elements_step_fuel:
  assumes IHv: "\<And>s. 2 * length s + 1 \<le> n \<Longrightarrow> parse_value n s \<noteq> OutOfFuel"
      and IHe: "\<And>s. 2 * length s + 2 \<le> n \<Longrightarrow> parse_elements n s \<noteq> OutOfFuel"
      and n: "2 * length s + 2 \<le> Suc n"
  shows "parse_elements (Suc n) s \<noteq> OutOfFuel"
proof (cases "parse_value n s")
  case OutOfFuel
  with IHv [of s] n show ?thesis by simp
next
  case Unexpected
  then show ?thesis by simp
next
  case (Parsed v rest)
  have l: "length rest < length s" by (rule parse_value_shorter [OF Parsed])
  show ?thesis
  proof (cases "skip_ws rest")
    case Nil
    with Parsed show ?thesis by simp
  next
    case (Cons c rest1)
    have "length rest1 < length rest" by (rule skip_ws_Cons [OF Cons])
    with l n have "2 * length rest1 + 2 \<le> n" by simp
    from IHe [OF this] Parsed Cons show ?thesis
      by (simp add: map_parsed_OutOfFuel)
  qed
qed

lemma parse_members_step_fuel:
  assumes IHv: "\<And>s. 2 * length s + 1 \<le> n \<Longrightarrow> parse_value n s \<noteq> OutOfFuel"
      and IHm: "\<And>s. 2 * length s + 2 \<le> n \<Longrightarrow> parse_members n s \<noteq> OutOfFuel"
      and n: "2 * length s + 2 \<le> Suc n"
  shows "parse_members (Suc n) s \<noteq> OutOfFuel"
proof (cases "parse_key s")
  case None
  then show ?thesis by simp
next
  case (Some a)
  then obtain k rest where k: "parse_key s = Some (k, rest)" by (cases a) simp
  have lk: "length rest < length s" by (rule parse_key_shorter [OF k])
  show ?thesis
  proof (cases "parse_value n rest")
    case OutOfFuel
    with IHv [of rest] n lk show ?thesis by simp
  next
    case Unexpected
    with k show ?thesis by simp
  next
    case (Parsed v rest1)
    have l: "length rest1 < length rest" by (rule parse_value_shorter [OF Parsed])
    show ?thesis
    proof (cases "skip_ws rest1")
      case Nil
      with k Parsed show ?thesis by simp
    next
      case (Cons c rest2)
      have "length rest2 < length rest1" by (rule skip_ws_Cons [OF Cons])
      with l lk n have "2 * length rest2 + 2 \<le> n" by simp
      from IHm [OF this] k Parsed Cons show ?thesis
        by (simp add: map_parsed_OutOfFuel)
    qed
  qed
qed

lemma parse_fuel:
  "(\<forall>s. 2 * length s + 1 \<le> n \<longrightarrow> parse_value n s \<noteq> OutOfFuel) \<and>
   (\<forall>s. 2 * length s + 2 \<le> n \<longrightarrow> parse_elements n s \<noteq> OutOfFuel) \<and>
   (\<forall>s. 2 * length s + 2 \<le> n \<longrightarrow> parse_members n s \<noteq> OutOfFuel)"
proof (induction n)
  case 0
  show ?case by simp
next
  case (Suc n)
  show ?case
  proof (intro conjI allI impI)
    fix s :: jsstring assume "2 * length s + 1 \<le> Suc n"
    with Suc show "parse_value (Suc n) s \<noteq> OutOfFuel"
      by (intro parse_value_step_fuel) auto
  next
    fix s :: jsstring assume "2 * length s + 2 \<le> Suc n"
    with Suc show "parse_elements (Suc n) s \<noteq> OutOfFuel"
      by (intro parse_elements_step_fuel) auto
  next
    fix s :: jsstring assume "2 * length s + 2 \<le> Suc n"
    with Suc show "parse_members (Suc n) s \<noteq> OutOfFuel"
      by (intro parse_members_step_fuel) auto
  qed
qed

lemma JSON_parse_fuel: "parse_value (2 * length s + 2) s \<noteq> OutOfFuel"
  using parse_fuel [of "2 * length s + 2"] by simp


section \<open>Evaluation of the platform functions on given texts\<close>

lemmas continuation_octets_numeral =
  continuation_octets.simps(2) [of "pred_numeral k" for k, folded numeral_eq_Suc]
  continuation_octets.simps(3) [of "pred_numeral k" for k, folded numeral_eq_Suc]
  continuation_octets.simps(4) [of "pred_numeral k" for k, folded numeral_eq_Suc]
  continuation_octets.simps(5) [of "pred_numeral k" for k, folded numeral_eq_Suc]

lemmas parse_numeral =
  parse_value.simps(2) [of "pred_numeral k" for k, folded numeral_eq_Suc]
  parse_elements.simps(2) [of "pred_numeral k" for k, folded numeral_eq_Suc]
  parse_members.simps(2) [of "pred_numeral k" for k, folded numeral_eq_Suc]

lemmas codec_eval =
  js_def btoa_def atob_def uriUnreserved_def is_leading_surrogate_def is_trailing_surrogate_def
  percentEncode_def percentEncodeOctet_def utf8_octets_def UTF16SurrogatePairToCodePoint_def
  hexDigitUpper_def hexDigitLower_def upperHexValue_def hexValue_def base64_char_def
  base64_value_def is_ascii_whitespace_def strip_padding_def percentEscape_def
  percentEscapeAll_def ParseHexOctet_def leading_ones_def UTF16EncodeCodePoint_def
  is_continuation_def String_slice_def QuoteJSONString_def UnicodeEscape_def is_json_ws_def
  skip_ws_def is_digit_def scan_digits_def scan_int_def scan_frac_def scan_exp_def
  scan_number_def obj_of_members_def JSON_parse_def parse_escape_def parse_atom_def
  parse_key_def continuation_octets_numeral parse_numeral

section \<open>Properties of the share link: malformed tokens\<close>

lemma share_prefix: "prefix (js ''#share='') (js ''#share='' @ t)"
  by simp

lemma share_replace: "String_replace (js ''#share='') [] (js ''#share='' @ t) = t"
  by (simp add: js_def)

lemma handleHashChange_share:
  "handleHashChange (js ''#share='' @ t) s =
     (case decoded_payload t of
        None \<Rightarrow> Typed s
      | Some payload \<Rightarrow>
          (case truthy (js_get payload (js ''data'')) of
             None \<Rightarrow> Outside
           | Some False \<Rightarrow> Typed s
           | Some True \<Rightarrow>
               (case (Option.bind (js_get payload (js ''data'')) as_BlogPostData,
                      category_or_empty (js_get payload (js ''category'')),
                      logo_or_null (js_get payload (js ''logo''))) of
                  (Some d, Some c, Some l) \<Rightarrow>
                    Typed (s\<lparr>blogData := Some d, currentCategory := c, logo := l\<rparr>)
                | _ \<Rightarrow> Outside)))"
  unfolding handleHashChange_def share_replace using share_prefix [of t] by simp

text \<open>
  Claim C8. The fragment \<open>#share=<token>\<close> leaves the session as it is when the token
  is not base64 (\<open>atob\<close> throws), when its octets are not an escaped UTF-8 text
  (\<open>decodeURIComponent\<close> throws), when the text is not JSON (\<open>JSON.parse\<close> throws), or
  when the parsed payload has no \<open>data\<close>. The handler returns a state in each case:
  the exception stops at its \<open>catch\<close>.
\<close>

theorem malformed_share_token_is_ignored:
  assumes "atob t = None \<or>
     (\<exists>b. atob t = Some b \<and> decodeURIComponent (percentEscapeAll b) = None) \<or>
     (\<exists>b x. atob t = Some b \<and> decodeURIComponent (percentEscapeAll b) = Some x \<and>
        JSON_parse x = None) \<or>
     (\<exists>b x p. atob t = Some b \<and> decodeURIComponent (percentEscapeAll b) = Some x \<and>
        JSON_parse x = Some p \<and> js_get p (js ''data'') = None)"
  shows "handleHashChange (js ''#share='' @ t) s = Typed s"
proof -
  from assms have "decoded_payload t = None \<or>
      (\<exists>p. decoded_payload t = Some p \<and> js_get p (js ''data'') = None)"
    by (auto simp: decoded_payload_def)
  then show ?thesis
    by (auto simp: handleHashChange_share truthy_def)
qed

theorem malformed_share_token_is_ignored_witness:
  "handleHashChange (js ''#share=not-base64!!'') sessionWithArticle = Typed sessionWithArticle \<and>
   handleHashChange (js ''#share=/w=='') sessionWithArticle = Typed sessionWithArticle \<and>
   handleHashChange (js ''#share=aGVsbG8='') sessionWithArticle = Typed sessionWithArticle \<and>
   handleHashChange (js ''#share=eyJjYXRlZ29yeSI6IngifQ=='') sessionWithArticle = Typed sessionWithArticle"
proof -
  have 1: "atob (js ''not-base64!!'') = None"
    by (simp add: codec_eval)
  have 2: "\<exists>b. atob (js ''/w=='') = Some b \<and> decodeURIComponent (percentEscapeAll b) = None"
    by (simp add: codec_eval)
  have 3: "\<exists>b x. atob (js ''aGVsbG8='') = Some b \<and>
      decodeURIComponent (percentEscapeAll b) = Some x \<and> JSON_parse x = None"
    by (simp add: codec_eval)
  have 4: "\<exists>b x p. atob (js ''eyJjYXRlZ29yeSI6IngifQ=='') = Some b \<and>
      decodeURIComponent (percentEscapeAll b) = Some x \<and> JSON_parse x = Some p \<and>
      js_get p (js ''data'') = None"
    by (simp add: codec_eval js_get_def)
  have split: "\<And>t. js (''#share='' @ t) = js ''#share='' @ js t"
    by (simp add: js_def)
  show ?thesis
    using malformed_share_token_is_ignored [of "js ''not-base64!!''" sessionWithArticle]
      malformed_share_token_is_ignored [of "js ''/w==''" sessionWithArticle]
      malformed_share_token_is_ignored [of "js ''aGVsbG8=''" sessionWithArticle]
      malformed_share_token_is_ignored [of "js ''eyJjYXRlZ29yeSI6IngifQ==''" sessionWithArticle]
      1 2 3 4
    by (simp only: split [symmetric] append.simps) blast
qed

section \<open>Properties of the topic suggestions\<close>

lemma match_array_between:
  assumes "0x5B \<notin> set pre" and "0x5D \<notin> set post"
  shows "match_array (pre @ [0x5B] @ mid @ [0x5D] @ post) = Some ([0x5B] @ mid @ [0x5D])"
proof -
  have d: "dropWhile (\<lambda>c. c \<noteq> 0x5B) (pre @ [0x5B] @ mid @ [0x5D] @ post) =
           0x5B # mid @ [0x5D] @ post"
  proof -
    have "dropWhile (\<lambda>c. c \<noteq> 0x5B) (pre @ 0x5B # mid @ [0x5D] @ post) =
          dropWhile (\<lambda>c. c \<noteq> 0x5B) (0x5B # mid @ [0x5D] @ post)"
      by (rule dropWhile_append2) (use assms(1) in auto)
    then show ?thesis by simp
  qed
  have r: "dropWhile (\<lambda>c. c \<noteq> 0x5D) (rev (mid @ [0x5D] @ post)) = 0x5D # rev mid"
  proof -
    have "dropWhile (\<lambda>c. c \<noteq> 0x5D) (rev post @ 0x5D # rev mid) =
          dropWhile (\<lambda>c. c \<noteq> 0x5D) (0x5D # rev mid)"
      by (rule dropWhile_append2) (use assms(2) in auto)
    then show ?thesis by simp
  qed
  show ?thesis
    unfolding match_array_def d using r by simp
qed

lemma match_array_none:
  assumes "0x5D \<notin> set (dropWhile (\<lambda>c. c \<noteq> 0x5B) s)"
  shows "match_array s = None"
proof (cases "dropWhile (\<lambda>c. c \<noteq> 0x5B) s")
  case Nil
  show ?thesis unfolding match_array_def Nil by simp
next
  case (Cons c rest)
  with assms have "0x5D \<notin> set rest" by simp
  then show ?thesis unfolding match_array_def Cons by simp
qed

text \<open>
  Claim C4, as the code has it. Let the clean text be the response text without its
  Markdown code fences. When the clean text has a \<open>[\<close> and a \<open>]\<close> after it, the text
  from its first \<open>[\<close> to its last \<open>]\<close> is handed to \<open>JSON.parse\<close>: the parsed value is
  returned as the topics, and a \<open>SyntaxError\<close> of \<open>JSON.parse\<close> is thrown to the caller.
  When no \<open>]\<close> follows the first \<open>[\<close>, or there is no \<open>[\<close>, the topics are the empty
  array and no failure is reported.
\<close>

theorem suggestions_parsed_between_brackets:
  assumes "cleanText =
     remove_all [0x60, 0x60, 0x60]
       (remove_all ([0x60, 0x60, 0x60] @ js ''json'')
          (case GenerateContentResponse.text' r of None \<Rightarrow> [] | Some t \<Rightarrow> t))"
  shows "(cleanText = pre @ [0x5B] @ mid @ [0x5D] @ post \<and> 0x5B \<notin> set pre \<and> 0x5D \<notin> set post \<longrightarrow>
            generateTrendingTopics (Inr r) =
              (case JSON_parse ([0x5B] @ mid @ [0x5D]) of
                 None \<Rightarrow> Inl SyntaxError
               | Some topics \<Rightarrow> Inr (topics, collect_sources (grounding_chunks r)))) \<and>
         (0x5D \<notin> set (dropWhile (\<lambda>c. c \<noteq> 0x5B) cleanText) \<longrightarrow>
            generateTrendingTopics (Inr r) = Inr (JArr [], collect_sources (grounding_chunks r)))"
proof -
  have unfold: "generateTrendingTopics (Inr r) =
      (case match_array cleanText of
         None \<Rightarrow> Inr (JArr [], collect_sources (grounding_chunks r))
       | Some m \<Rightarrow>
           (case JSON_parse m of
              None \<Rightarrow> Inl SyntaxError
            | Some topics \<Rightarrow> Inr (topics, collect_sources (grounding_chunks r))))"
    by (simp add: generateTrendingTopics_def assms Let_def)
  show ?thesis
  proof (intro conjI impI)
    assume a: "cleanText = pre @ [0x5B] @ mid @ [0x5D] @ post \<and> 0x5B \<notin> set pre \<and>
      0x5D \<notin> set post"
    then have "match_array cleanText = Some ([0x5B] @ mid @ [0x5D])"
      using match_array_between [of pre post mid] by simp
    then show "generateTrendingTopics (Inr r) =
                (case JSON_parse ([0x5B] @ mid @ [0x5D]) of
                   None \<Rightarrow> Inl SyntaxError
                 | Some topics \<Rightarrow> Inr (topics, collect_sources (grounding_chunks r)))"
      unfolding unfold by simp
  next
    assume "0x5D \<notin> set (dropWhile (\<lambda>c. c \<noteq> 0x5B) cleanText)"
    then have "match_array cleanText = None"
      by (rule match_array_none)
    then show "generateTrendingTopics (Inr r) =
        Inr (JArr [], collect_sources (grounding_chunks r))"
      unfolding unfold by simp
  qed
qed

theorem suggestions_parsed_between_brackets_witness:
  "generateTrendingTopics (Inr ideasResponse) =
     Inr (JArr [TopicSuggestion_json \<lparr>title = js ''X'', description = js ''Y''\<rparr>], []) \<and>
   generateTrendingTopics (Inr \<lparr>text' = Some (js ''No ideas today.''), candidates = None\<rparr>) =
     Inr (JArr [], [])"
proof -
  have clean: "remove_all [0x60, 0x60, 0x60]
       (remove_all ([0x60, 0x60, 0x60] @ js ''json'')
          (case GenerateContentResponse.text' ideasResponse of None \<Rightarrow> [] | Some t \<Rightarrow> t)) =
     (js ''Here are some ideas:'' @
     [0xA]) @ [0x5B] @ (js ''{'' @
     [0x22] @
     js ''title'' @
     [0x22] @
     js '':'' @
     [0x22] @
     js ''X'' @
     [0x22] @
     js '','' @
     [0x22] @
     js ''description'' @
     [0x22] @
     js '':'' @
     [0x22] @
     js ''Y'' @
     [0x22] @
     js ''}'') @ [0x5D] @ ([0xA] @
     js ''Hope this helps!'')"
    by (simp add: ideasResponse_def js_def)
  have pre: "0x5B \<notin> set (js ''Here are some ideas:'' @
     [0xA])" by (simp add: js_def)
  have post: "0x5D \<notin> set ([0xA] @
     js ''Hope this helps!'')" by (simp add: js_def)
  have parse: "JSON_parse ([0x5B] @ (js ''{'' @
     [0x22] @
     js ''title'' @
     [0x22] @
     js '':'' @
     [0x22] @
     js ''X'' @
     [0x22] @
     js '','' @
     [0x22] @
     js ''description'' @
     [0x22] @
     js '':'' @
     [0x22] @
     js ''Y'' @
     [0x22] @
     js ''}'') @ [0x5D]) =
     Some (JArr [TopicSuggestion_json \<lparr>title = js ''X'', description = js ''Y''\<rparr>])"
    by (simp add: codec_eval TopicSuggestion_json_def)
  have srcs: "collect_sources (grounding_chunks ideasResponse) = []"
    by (simp add: grounding_chunks_def ideasResponse_def)
  have 1: "generateTrendingTopics (Inr ideasResponse) =
     Inr (JArr [TopicSuggestion_json \<lparr>title = js ''X'', description = js ''Y''\<rparr>], [])"
    using suggestions_parsed_between_brackets [OF clean [symmetric], of "(js ''Here are some ideas:'' @
     [0xA])" "(js ''{'' @
     [0x22] @
     js ''title'' @
     [0x22] @
     js '':'' @
     [0x22] @
     js ''X'' @
     [0x22] @
     js '','' @
     [0x22] @
     js ''description'' @
     [0x22] @
     js '':'' @
     [0x22] @
     js ''Y'' @
     [0x22] @
     js ''}'')" "([0xA] @
     js ''Hope this helps!'')"]
      clean pre post
    by (simp only: parse srcs option.case simp_thms)
  have clean2: "remove_all [0x60, 0x60, 0x60]
       (remove_all ([0x60, 0x60, 0x60] @ js ''json'')
          (case GenerateContentResponse.text' \<lparr>text' = Some (js ''No ideas today.''), candidates = None\<rparr>
           of None \<Rightarrow> [] | Some t \<Rightarrow> t)) = js ''No ideas today.''"
    by (simp add: js_def)
  have none: "0x5D \<notin> set (dropWhile (\<lambda>c. c \<noteq> 0x5B) (js ''No ideas today.''))"
    by (simp add: js_def)
  have 2: "generateTrendingTopics (Inr \<lparr>text' = Some (js ''No ideas today.''), candidates = None\<rparr>) =
     Inr (JArr [], [])"
    using suggestions_parsed_between_brackets [OF clean2 [symmetric]] none
    by (simp add: grounding_chunks_def)
  from 1 2 show ?thesis by simp
qed

text \<open>A response whose commentary has brackets of its own: the array it embeds is valid
  JSON, but the text from the first \<open>[\<close> to the last \<open>]\<close> is not, and the caller gets
  the exception.\<close>

theorem bracketed_commentary_throws:
  "JSON_parse (js ''[{'' @
     [0x22] @
     js ''title'' @
     [0x22] @
     js '':'' @
     [0x22] @
     js ''X'' @
     [0x22] @
     js '','' @
     [0x22] @
     js ''description'' @
     [0x22] @
     js '':'' @
     [0x22] @
     js ''Y'' @
     [0x22] @
     js ''}]'') =
     Some (JArr [TopicSuggestion_json \<lparr>title = js ''X'', description = js ''Y''\<rparr>]) \<and>
   generateTrendingTopics (Inr \<lparr>text' = Some (js ''Top [3] ideas: [{'' @
     [0x22] @
     js ''title'' @
     [0x22] @
     js '':'' @
     [0x22] @
     js ''X'' @
     [0x22] @
     js '','' @
     [0x22] @
     js ''description'' @
     [0x22] @
     js '':'' @
     [0x22] @
     js ''Y'' @
     [0x22] @
     js ''}]''), candidates = None\<rparr>) = Inl SyntaxError"
  by (simp add: codec_eval TopicSuggestion_json_def generateTrendingTopics_def match_array_def)

end
